theory Spec2Isabelle
  imports Main "HOL-Library.Word" "HOL-Library.AList"
begin

unbundle bit_operations_syntax

section \<open>Buffers and the integer accessors of the byte codec\<close>

text \<open>
  A \<open>Buffer\<close> is a list of bytes. The numbers of the program are modelled as \<open>int\<close>
  (every number the protocol engine handles is an integer). The accessors follow the
  platform's buffer interface: a read outside the buffer and a write of a value outside
  the range of the field raise \<open>RangeError\<close>.
\<close>

type_synonym byte = "8 word"
type_synonym Buffer = "byte list"

datatype error = RangeError

definition u8 :: "Buffer \<Rightarrow> nat \<Rightarrow> int" where
  "u8 data off = uint (data ! off)"

definition signed16 :: "int \<Rightarrow> int" where
  "signed16 v = (if v < 32768 then v else v - 65536)"

definition signed32 :: "int \<Rightarrow> int" where
  "signed32 v = (if v < 2147483648 then v else v - 4294967296)"

text \<open>The value of the field at \<open>off\<close>, for an offset known to be inside the buffer.\<close>

definition int16BE :: "Buffer \<Rightarrow> nat \<Rightarrow> int" where
  "int16BE data off = signed16 (u8 data off * 256 + u8 data (off + 1))"

definition int32BE :: "Buffer \<Rightarrow> nat \<Rightarrow> int" where
  "int32BE data off =
     signed32 (u8 data off * 16777216 + u8 data (off + 1) * 65536
               + u8 data (off + 2) * 256 + u8 data (off + 3))"

definition int32LE :: "Buffer \<Rightarrow> nat \<Rightarrow> int" where
  "int32LE data off =
     signed32 (u8 data off + u8 data (off + 1) * 256
               + u8 data (off + 2) * 65536 + u8 data (off + 3) * 16777216)"

definition readInt16BE :: "Buffer \<Rightarrow> nat \<Rightarrow> error + int" where
  "readInt16BE data off =
     (if off + 2 \<le> length data then Inr (int16BE data off) else Inl RangeError)"

definition readInt32BE :: "Buffer \<Rightarrow> nat \<Rightarrow> error + int" where
  "readInt32BE data off =
     (if off + 4 \<le> length data then Inr (int32BE data off) else Inl RangeError)"

text \<open>
  \<open>data.toString('ascii', start, end)\<close>: decoding as \<open>'ascii'\<close> clears the highest
  bit of every byte before it is turned into a character.
\<close>

definition toString_ascii :: "Buffer \<Rightarrow> nat \<Rightarrow> nat \<Rightarrow> Buffer" where
  "toString_ascii data start end = map (\<lambda>b. b AND 0x7F) (take (end - start) (drop start data))"

text \<open>The string \<open>'PBAU'\<close>, as character codes.\<close>

definition PBAU :: Buffer where
  "PBAU = [0x50, 0x42, 0x41, 0x55]"

definition writeShort :: "int \<Rightarrow> error + Buffer" where
  "writeShort n =
     (if 0 \<le> n \<and> n \<le> 65535 then Inr [of_int (n div 256), of_int n] else Inl RangeError)"

definition writeInt :: "int \<Rightarrow> error + Buffer" where
  "writeInt n =
     (if - 2147483648 \<le> n \<and> n \<le> 2147483647
      then Inr [of_int (n div 16777216), of_int (n div 65536), of_int (n div 256), of_int n]
      else Inl RangeError)"

text \<open>
  \<open>buildHeader\<close>: the pre-header byte, the domain, the body length as
  \<open>floor(bodyLen / 256)\<close> and \<open>bodyLen % 256\<close> (each stored in one byte), and five zero
  bytes.
\<close>

definition buildHeader :: "int \<Rightarrow> nat \<Rightarrow> error + Buffer" where
  "buildHeader domainNo bodyLen =
     (case writeInt domainNo of
        Inl e \<Rightarrow> Inl e
      | Inr domainBytes \<Rightarrow>
          Inr ([1] @ domainBytes @ [of_nat (bodyLen div 256), of_nat (bodyLen mod 256)]
               @ [0, 0, 0, 0, 0]))"

text \<open>\<open>checksum\<close>: the loop \<open>for (const b of buf.values()) sum = (sum + b) % 256\<close>.\<close>

definition checksum :: "Buffer \<Rightarrow> int" where
  "checksum buf = foldl (\<lambda>sum b. (sum + uint b) mod 256) 0 buf"


section \<open>Command identifiers\<close>

text \<open>
  The numeric values of \<open>CommandId\<close> are declared in \<open>constants.js\<close>, outside the
  files modelled here. The table is therefore a parameter \<open>K\<close> of every operation that
  uses an identifier.
\<close>

record CommandId =
  SetSeqTransportMode :: int
  SetSeqSelection :: int
  MoveSeqToCue :: int
  MoveSeqToLastNextCue :: int
  IgnoreNextCue :: int
  ApplyView :: int
  SaveProject :: int
  ToggleFullscreen :: int
  SetSiteIp :: int
  ClearAllActive :: int
  StoreActive :: int
  StoreActiveToBeginning :: int
  ResetAll :: int
  SetSeqSmpteMode :: int
  GetSeqTransportMode :: int
  GetSeqTime :: int
  GetRemainingTimeUntilNextCue :: int
  GetSequenceIds :: int
  GetSequenceName :: int

section \<open>State of the two connection classes\<close>

datatype TransportState = Play | Pause | Stop | Unknown

datatype SequenceInfo = SequenceInfo (info_id: int) (info_name: string)

text \<open>
  What an operation does to the outside: a write on the socket, a call of one of the
  consumer's handlers, or the rejection of the promise the operation returned. The
  transport is taken to accept every write handed to it, and the consumer's handlers are
  taken to return normally.
\<close>

datatype event =
    Write Buffer
  | OnTime int int int int
  | OnNextCueTime int int int int
  | OnTransport TransportState
  | OnSequenceTransport int TransportState
  | OnSequencesUpdated "SequenceInfo list"
  | OnError error
  | OnDebug error
  | Rejected error

text \<open>
  \<open>SequenceConnection\<close>. A socket field holds \<open>True\<close> when it refers to a socket object
  and \<open>False\<close> when it is \<open>null\<close>; likewise for the timer handle.
\<close>

record SequenceConnection =
  sc_domain :: int
  sc_seqId :: int
  sc_socket :: bool
  sc_pollTimer :: bool
  sc_connected :: bool
  sc_currentState :: TransportState

text \<open>
  \<open>PBClient\<close>. The two \<open>Map\<close> fields are association lists in insertion order with
  distinct keys: \<open>set\<close> is \<open>AList.update\<close>, \<open>get\<close> is \<open>map_of\<close>, \<open>size\<close> is \<open>length\<close>.
  The fields \<open>host\<close> and \<open>pollHandlers\<close> are left out: the host is used only to open
  the socket, and a call of a handler is recorded as an event.
\<close>

record PBClient =
  domain :: int
  statusPollTimer :: bool
  socket :: bool
  connecting :: bool
  pendingSequenceIds :: "int list"
  pendingSequenceNames :: "(int \<times> string) list"
  sequenceNameQueue :: "int list"
  currentSequenceNameId :: "int option"
  pollSequenceIds :: "int list"
  statusRequestQueue :: "int list"
  currentStatusRequestId :: "int option"
  statusRequestPending :: bool
  sequenceStates :: "(int \<times> TransportState) list"
  sequenceConnections :: "(int \<times> SequenceConnection) list"

section \<open>Sending\<close>

text \<open>
  The frame that \<open>send\<close> assembles: magic, header, checksum byte, body. Both classes
  build it with the same code.
\<close>

definition message :: "int \<Rightarrow> int \<Rightarrow> Buffer list \<Rightarrow> error + Buffer" where
  "message domainNo commandId parts =
     (case writeShort commandId of
        Inl e \<Rightarrow> Inl e
      | Inr idBytes \<Rightarrow>
          (let body = idBytes @ concat parts in
           case buildHeader domainNo (length body) of
             Inl e \<Rightarrow> Inl e
           | Inr header \<Rightarrow> Inr (PBAU @ header @ [of_int (checksum header)] @ body)))"

definition send :: "PBClient \<Rightarrow> int \<Rightarrow> Buffer list \<Rightarrow> event list" where
  "send c commandId parts =
     (if \<not> socket c \<or> connecting c then []
      else case message (domain c) commandId parts of
             Inl e \<Rightarrow> [Rejected e]
           | Inr m \<Rightarrow> [Write m])"

definition seq_send :: "SequenceConnection \<Rightarrow> int \<Rightarrow> Buffer list \<Rightarrow> event list" where
  "seq_send sc commandId parts =
     (if \<not> sc_socket sc \<or> \<not> sc_connected sc then []
      else case message (sc_domain sc) commandId parts of
             Inl e \<Rightarrow> [Rejected e]
           | Inr m \<Rightarrow> [Write m])"

text \<open>
  The array literal passed to \<open>send\<close> is evaluated before the call, left to right; a
  \<open>writeInt\<close> or \<open>writeShort\<close> that raises there rejects the operation before \<open>send\<close>
  is entered.
\<close>

fun evalParts :: "(error + Buffer) list \<Rightarrow> error + Buffer list" where
  "evalParts [] = Inr []"
| "evalParts (Inl e # ps) = Inl e"
| "evalParts (Inr b # ps) = (case evalParts ps of Inl e \<Rightarrow> Inl e | Inr bs \<Rightarrow> Inr (b # bs))"

definition sendParts :: "PBClient \<Rightarrow> int \<Rightarrow> (error + Buffer) list \<Rightarrow> event list" where
  "sendParts c commandId args =
     (case evalParts args of Inl e \<Rightarrow> [Rejected e] | Inr parts \<Rightarrow> send c commandId parts)"

definition sendGetTime :: "CommandId \<Rightarrow> SequenceConnection \<Rightarrow> event list" where
  "sendGetTime K sc =
     (case writeInt (sc_seqId sc) of
        Inl e \<Rightarrow> [Rejected e]
      | Inr seqIdBuf \<Rightarrow> seq_send sc (GetSeqTime K) [seqIdBuf])"

section \<open>Command operations of \<open>PBClient\<close>\<close>

definition boolByte :: "bool \<Rightarrow> Buffer" where
  "boolByte b = [if b then 1 else 0]"

definition asciiBytes :: "string \<Rightarrow> Buffer" where
  "asciiBytes s = map of_char s"

definition setTransport :: "CommandId \<Rightarrow> PBClient \<Rightarrow> int \<Rightarrow> int \<Rightarrow> event list \<times> PBClient" where
  "setTransport K c mode sequenceId =
     (sendParts c (SetSeqTransportMode K) [writeInt sequenceId, writeInt mode], c)"

definition selectSequence :: "CommandId \<Rightarrow> PBClient \<Rightarrow> int \<Rightarrow> event list \<times> PBClient" where
  "selectSequence K c sequenceId = (sendParts c (SetSeqSelection K) [writeInt sequenceId], c)"

definition gotoCue :: "CommandId \<Rightarrow> PBClient \<Rightarrow> int \<Rightarrow> int \<Rightarrow> event list \<times> PBClient" where
  "gotoCue K c sequenceId cueId =
     (sendParts c (MoveSeqToCue K) [writeInt sequenceId, writeInt cueId], c)"

definition nextOrLastCue :: "CommandId \<Rightarrow> PBClient \<Rightarrow> int \<Rightarrow> bool \<Rightarrow> event list \<times> PBClient" where
  "nextOrLastCue K c sequenceId isNext =
     (sendParts c (MoveSeqToLastNextCue K) [writeInt sequenceId, Inr (boolByte isNext)], c)"

definition ignoreNextCue :: "CommandId \<Rightarrow> PBClient \<Rightarrow> int \<Rightarrow> bool \<Rightarrow> event list \<times> PBClient" where
  "ignoreNextCue K c sequenceId doIgnore =
     (sendParts c (IgnoreNextCue K) [writeInt sequenceId, Inr (boolByte doIgnore)], c)"

definition applyView :: "CommandId \<Rightarrow> PBClient \<Rightarrow> int \<Rightarrow> event list \<times> PBClient" where
  "applyView K c viewId = (sendParts c (ApplyView K) [writeInt viewId], c)"

definition saveProject :: "CommandId \<Rightarrow> PBClient \<Rightarrow> event list \<times> PBClient" where
  "saveProject K c = (sendParts c (SaveProject K) [], c)"

definition toggleFullscreen :: "CommandId \<Rightarrow> PBClient \<Rightarrow> int \<Rightarrow> event list \<times> PBClient" where
  "toggleFullscreen K c siteId = (sendParts c (ToggleFullscreen K) [writeInt siteId], c)"

definition setSiteIp :: "CommandId \<Rightarrow> PBClient \<Rightarrow> int \<Rightarrow> string \<Rightarrow> event list \<times> PBClient" where
  "setSiteIp K c siteId ip =
     (let ipBuf = asciiBytes ip in
      (sendParts c (SetSiteIp K) [writeInt siteId, writeShort (int (length ipBuf)), Inr ipBuf], c))"

definition clearAllActive :: "CommandId \<Rightarrow> PBClient \<Rightarrow> event list \<times> PBClient" where
  "clearAllActive K c = (sendParts c (ClearAllActive K) [], c)"

definition storeActive :: "CommandId \<Rightarrow> PBClient \<Rightarrow> int \<Rightarrow> event list \<times> PBClient" where
  "storeActive K c sequenceId = (sendParts c (StoreActive K) [writeInt sequenceId], c)"

definition storeActiveToBeginning :: "CommandId \<Rightarrow> PBClient \<Rightarrow> int \<Rightarrow> event list \<times> PBClient" where
  "storeActiveToBeginning K c sequenceId =
     (sendParts c (StoreActiveToBeginning K) [writeInt sequenceId], c)"

definition resetAll :: "CommandId \<Rightarrow> PBClient \<Rightarrow> event list \<times> PBClient" where
  "resetAll K c = (sendParts c (ResetAll K) [], c)"

definition setSequenceSmpteMode :: "CommandId \<Rightarrow> PBClient \<Rightarrow> int \<Rightarrow> int \<Rightarrow> event list \<times> PBClient" where
  "setSequenceSmpteMode K c sequenceId mode =
     (sendParts c (SetSeqSmpteMode K) [writeInt sequenceId, writeInt mode], c)"

definition refreshSequences :: "CommandId \<Rightarrow> PBClient \<Rightarrow> event list \<times> PBClient" where
  "refreshSequences K c =
     (let c1 = c\<lparr>pendingSequenceIds := [], pendingSequenceNames := [], sequenceNameQueue := []\<rparr>
      in (sendParts c1 (GetSequenceIds K) [], c1))"

section \<open>The request queues\<close>

definition fetchSequenceName :: "CommandId \<Rightarrow> PBClient \<Rightarrow> int \<Rightarrow> event list \<times> PBClient" where
  "fetchSequenceName K c seqId =
     (let c1 = c\<lparr>currentSequenceNameId := Some seqId\<rparr>
      in (sendParts c1 (GetSequenceName K) [writeInt seqId], c1))"

definition processSequenceNameQueue :: "CommandId \<Rightarrow> PBClient \<Rightarrow> event list \<times> PBClient" where
  "processSequenceNameQueue K c =
     (case sequenceNameQueue c of
        [] \<Rightarrow> ([], c)
      | nextId # rest \<Rightarrow> fetchSequenceName K (c\<lparr>sequenceNameQueue := rest\<rparr>) nextId)"

definition processStatusRequestQueue :: "CommandId \<Rightarrow> PBClient \<Rightarrow> event list \<times> PBClient" where
  "processStatusRequestQueue K c =
     (if statusRequestPending c then ([], c)
      else case statusRequestQueue c of
             [] \<Rightarrow> ([], c\<lparr>currentStatusRequestId := None\<rparr>)
           | nextId # rest \<Rightarrow>
               (let c1 = c\<lparr>statusRequestQueue := rest, currentStatusRequestId := Some nextId,
                            statusRequestPending := True\<rparr>
                in (sendParts c1 (GetSeqTransportMode K) [writeInt nextId], c1)))"

text \<open>The body of the interval timer that \<open>startPolling\<close> installs.\<close>

definition statusPollTick :: "CommandId \<Rightarrow> PBClient \<Rightarrow> event list \<times> PBClient" where
  "statusPollTick K c =
     (if statusRequestQueue c = [] \<and> pollSequenceIds c \<noteq> []
      then processStatusRequestQueue K (c\<lparr>statusRequestQueue := pollSequenceIds c\<rparr>)
      else ([], c))"

definition updateState :: "SequenceConnection \<Rightarrow> TransportState \<Rightarrow> SequenceConnection" where
  "updateState sc state = sc\<lparr>sc_currentState := state\<rparr>"

definition updateSequenceState :: "PBClient \<Rightarrow> int \<Rightarrow> TransportState \<Rightarrow> PBClient" where
  "updateSequenceState c seqId state =
     c\<lparr>sequenceStates := AList.update seqId state (sequenceStates c),
       sequenceConnections :=
         AList.map_entry seqId (\<lambda>conn. updateState conn state) (sequenceConnections c)\<rparr>"

section \<open>Decoding inbound data in \<open>PBClient\<close>\<close>

text \<open>
  The two decoding loops. Their guards keep every read inside the buffer, so the reads
  in their bodies cannot raise.
\<close>

function readIds :: "Buffer \<Rightarrow> int \<Rightarrow> nat \<Rightarrow> nat \<Rightarrow> int list \<Rightarrow> int list" where
  "readIds data count i offset ids =
     (if int i < count \<and> offset + 4 \<le> length data
      then readIds data count (i + 1) (offset + 4) (ids @ [int32LE data offset])
      else ids)"
  by pat_completeness auto
termination
  by (relation "measure (\<lambda>(data, count, i, offset, ids). length data - offset)") auto

function readName :: "Buffer \<Rightarrow> int \<Rightarrow> nat \<Rightarrow> string \<Rightarrow> string" where
  "readName data strLen i name =
     (if int i < strLen \<and> 21 + i < length data
      then readName data strLen (i + 1) (name @ [char_of (u8 data (21 + i))])
      else name)"
  by pat_completeness auto
termination
  by (relation "measure (\<lambda>(data, strLen, i, name). length data - (21 + i))") auto

text \<open>The decimal text of a number, as a template literal prints an integer.\<close>

function decimal :: "nat \<Rightarrow> string" where
  "decimal n = (if n < 10 then [char_of (48 + n)] else decimal (n div 10) @ [char_of (48 + n mod 10)])"
  by pat_completeness auto
termination
  by (relation "measure id") auto

definition numberText :: "int \<Rightarrow> string" where
  "numberText n = (if n < 0 then CHR ''-'' # decimal (nat (- n)) else decimal (nat n))"

text \<open>\<open>names.get(id) || `Sequence ${id}`\<close>: an absent and an empty name both fall back.\<close>

definition sequenceInfoFor :: "(int \<times> string) list \<Rightarrow> int \<Rightarrow> SequenceInfo" where
  "sequenceInfoFor names seqId =
     SequenceInfo seqId
       (case map_of names seqId of
          None \<Rightarrow> ''Sequence '' @ numberText seqId
        | Some n \<Rightarrow> if n = [] then ''Sequence '' @ numberText seqId else n)"

definition transportStateOf :: "int \<Rightarrow> TransportState" where
  "transportStateOf stateInt =
     (if stateInt = 1 then Play else if stateInt = 2 then Stop
      else if stateInt = 3 then Pause else Unknown)"

text \<open>
  One definition for each case of the \<open>switch\<close>. A case gives \<open>Inl\<close> when a read raises;
  in every case the reads that can raise come before the first assignment, so the state
  that the \<open>catch\<close> clause sees is the state on entry. The status word is read under
  the length test of its case and cannot raise.
\<close>

definition caseGetSeqTransportMode ::
  "CommandId \<Rightarrow> PBClient \<Rightarrow> Buffer \<Rightarrow> error + event list \<times> PBClient" where
  "caseGetSeqTransportMode K c data =
     (let c1 = c\<lparr>statusRequestPending := False\<rparr> in
      if length data \<ge> 23 then
        (let state = transportStateOf (int32BE data 19) in
         case currentStatusRequestId c1 of
           Some cur \<Rightarrow>
             (let c2 = updateSequenceState c1 cur state;
                  (evs, c3) = processStatusRequestQueue K c2
              in Inr (OnSequenceTransport cur state # evs, c3))
         | None \<Rightarrow> Inr ([OnTransport state], c1))
      else Inr ([], c1))"

definition caseGetRemainingTimeUntilNextCue ::
  "PBClient \<Rightarrow> Buffer \<Rightarrow> error + event list \<times> PBClient" where
  "caseGetRemainingTimeUntilNextCue c data =
     (case readInt32BE data 19 of Inl e \<Rightarrow> Inl e | Inr h \<Rightarrow>
      case readInt32BE data 23 of Inl e \<Rightarrow> Inl e | Inr m \<Rightarrow>
      case readInt32BE data 27 of Inl e \<Rightarrow> Inl e | Inr s \<Rightarrow>
      case readInt32BE data 31 of Inl e \<Rightarrow> Inl e | Inr f \<Rightarrow>
        Inr ([OnNextCueTime h m s f], c))"

definition caseGetSequenceIds ::
  "CommandId \<Rightarrow> PBClient \<Rightarrow> Buffer \<Rightarrow> error + event list \<times> PBClient" where
  "caseGetSequenceIds K c data =
     (case readInt32BE data 19 of Inl e \<Rightarrow> Inl e | Inr count \<Rightarrow>
        (let ids = readIds data count 0 27 [];
             c1 = c\<lparr>pendingSequenceIds := ids, sequenceNameQueue := ids,
                     pendingSequenceNames := []\<rparr>
         in Inr (processSequenceNameQueue K c1)))"

definition caseGetSequenceName ::
  "CommandId \<Rightarrow> PBClient \<Rightarrow> Buffer \<Rightarrow> error + event list \<times> PBClient" where
  "caseGetSequenceName K c data =
     (case currentSequenceNameId c of
        None \<Rightarrow> Inr ([], c)
      | Some cur \<Rightarrow>
          (case readInt16BE data 19 of Inl e \<Rightarrow> Inl e | Inr strLen \<Rightarrow>
             (let name = readName data strLen 0 [];
                  c1 = c\<lparr>pendingSequenceNames := AList.update cur name (pendingSequenceNames c),
                          currentSequenceNameId := None\<rparr>
              in if length (pendingSequenceNames c1) = length (pendingSequenceIds c1)
                 then Inr ([OnSequencesUpdated
                              (map (sequenceInfoFor (pendingSequenceNames c1))
                                   (pendingSequenceIds c1))], c1)
                 else Inr (processSequenceNameQueue K c1))))"

definition caseErrorReply :: "CommandId \<Rightarrow> PBClient \<Rightarrow> event list \<times> PBClient" where
  "caseErrorReply K c =
     (let (evs1, c1) =
            (case currentStatusRequestId c of
               None \<Rightarrow> ([], c)
             | Some invalidId \<Rightarrow>
                 processStatusRequestQueue K
                   (c\<lparr>pollSequenceIds := filter (\<lambda>i. i \<noteq> invalidId) (pollSequenceIds c)\<rparr>));
          (evs2, c2) =
            (case currentSequenceNameId c1 of
               None \<Rightarrow> ([], c1)
             | Some invalidId \<Rightarrow>
                 processSequenceNameQueue K
                   (c1\<lparr>pendingSequenceIds := filter (\<lambda>i. i \<noteq> invalidId) (pendingSequenceIds c1),
                       currentSequenceNameId := None\<rparr>))
      in (evs1 @ evs2, c2))"

definition handleData_try :: "CommandId \<Rightarrow> PBClient \<Rightarrow> Buffer \<Rightarrow> error + event list \<times> PBClient" where
  "handleData_try K c data =
     (if length data < 19 then Inr ([], c)
      else if toString_ascii data 0 4 \<noteq> PBAU then Inr ([], c)
      else case readInt32BE data 5 of Inl e \<Rightarrow> Inl e | Inr domainNo \<Rightarrow>
        if domainNo \<noteq> domain c then Inr ([], c)
        else case readInt16BE data 17 of Inl e \<Rightarrow> Inl e | Inr cmdId \<Rightarrow>
          if cmdId = GetSeqTransportMode K then caseGetSeqTransportMode K c data
          else if cmdId = GetRemainingTimeUntilNextCue K then caseGetRemainingTimeUntilNextCue c data
          else if cmdId = GetSequenceIds K then caseGetSequenceIds K c data
          else if cmdId = GetSequenceName K then caseGetSequenceName K c data
          else if cmdId = 0xFFFF \<or> cmdId = - 1 then Inr (caseErrorReply K c)
          else Inr ([], c))"

definition handleData :: "CommandId \<Rightarrow> PBClient \<Rightarrow> Buffer \<Rightarrow> event list \<times> PBClient" where
  "handleData K c data =
     (case handleData_try K c data of Inl err \<Rightarrow> ([OnError err], c) | Inr r \<Rightarrow> r)"

section \<open>Decoding inbound data in \<open>SequenceConnection\<close>\<close>

definition seq_handleData_try ::
  "CommandId \<Rightarrow> SequenceConnection \<Rightarrow> Buffer \<Rightarrow> error + event list \<times> SequenceConnection" where
  "seq_handleData_try K sc data =
     (if length data < 19 then Inr ([], sc)
      else if toString_ascii data 0 4 \<noteq> PBAU then Inr ([], sc)
      else case readInt32BE data 5 of Inl e \<Rightarrow> Inl e | Inr domainNo \<Rightarrow>
        if domainNo \<noteq> sc_domain sc then Inr ([], sc)
        else case readInt16BE data 17 of Inl e \<Rightarrow> Inl e | Inr cmdId \<Rightarrow>
          if cmdId = GetSeqTime K \<and> length data \<ge> 35
          then Inr ([OnTime (int32BE data 19) (int32BE data 23) (int32BE data 27)
                       (int32BE data 31)], sc)
          else Inr ([], sc))"

definition seq_handleData ::
  "CommandId \<Rightarrow> SequenceConnection \<Rightarrow> Buffer \<Rightarrow> event list \<times> SequenceConnection" where
  "seq_handleData K sc data =
     (case seq_handleData_try K sc data of Inl e \<Rightarrow> ([OnDebug e], sc) | Inr r \<Rightarrow> r)"

section \<open>Runs of a Control Connection\<close>

text \<open>
  What can happen to a \<open>PBClient\<close> between two returns to the event loop: the interval
  timer fires (only while it is installed), the consumer calls \<open>refreshSequences\<close>, or
  the socket delivers a buffer.
\<close>

datatype input = Tick | RefreshSequences | Data Buffer

fun step :: "CommandId \<Rightarrow> PBClient \<Rightarrow> input \<Rightarrow> event list \<times> PBClient" where
  "step K c Tick = (if statusPollTimer c then statusPollTick K c else ([], c))"
| "step K c RefreshSequences = refreshSequences K c"
| "step K c (Data data) = handleData K c data"

fun run :: "CommandId \<Rightarrow> PBClient \<Rightarrow> input list \<Rightarrow> event list \<times> PBClient" where
  "run K c [] = ([], c)"
| "run K c (i # ins) =
     (let (evs1, c1) = step K c i; (evs2, c2) = run K c1 ins in (evs1 @ evs2, c2))"

section \<open>Sample data for closed evaluations\<close>

text \<open>
  An instance of the identifier table, for the places where a computation needs numbers.
  Its entries are pairwise different 16-bit values; nothing else about them is used.
\<close>

definition sampleIds :: CommandId where
  "sampleIds =
     \<lparr>SetSeqTransportMode = 3, SetSeqSelection = 6, MoveSeqToCue = 4,
      MoveSeqToLastNextCue = 7, IgnoreNextCue = 55, ApplyView = 103, SaveProject = 62,
      ToggleFullscreen = 56, SetSiteIp = 71, ClearAllActive = 13, StoreActive = 25,
      StoreActiveToBeginning = 26, ResetAll = 9, SetSeqSmpteMode = 41,
      GetSeqTransportMode = 72, GetSeqTime = 73, GetRemainingTimeUntilNextCue = 78,
      GetSequenceIds = 156, GetSequenceName = 157\<rparr>"

text \<open>A client for domain 0 right after its socket has connected.\<close>

definition connectedClient :: PBClient where
  "connectedClient =
     \<lparr>domain = 0, statusPollTimer = True, socket = True, connecting = False,
      pendingSequenceIds = [], pendingSequenceNames = [], sequenceNameQueue = [],
      currentSequenceNameId = None, pollSequenceIds = [], statusRequestQueue = [],
      currentStatusRequestId = None, statusRequestPending = False,
      sequenceStates = [], sequenceConnections = []\<rparr>"

text \<open>A frame for domain 0 as the peer sends it, in the layout that \<open>message\<close> produces.\<close>

definition frame0 :: "int \<Rightarrow> Buffer \<Rightarrow> Buffer" where
  "frame0 commandId payload = (case message 0 commandId [payload] of Inr m \<Rightarrow> m | Inl e \<Rightarrow> [])"

text \<open>The replies used in the sample runs: an ID list, a name, the error sentinel.\<close>

definition idsReply372 :: Buffer where
  "idsReply372 =
     frame0 (GetSequenceIds sampleIds)
       [0, 0, 0, 3,  0, 0, 0, 0,  3, 0, 0, 0,  7, 0, 0, 0,  2, 0, 0, 0]"

definition nameReply :: "string \<Rightarrow> Buffer" where
  "nameReply s =
     frame0 (GetSequenceName sampleIds)
       ([of_nat (length s div 256), of_nat (length s)] @ asciiBytes s)"

definition errorReply :: Buffer where
  "errorReply = frame0 0xFFFF []"

definition statusReply :: "int \<Rightarrow> Buffer" where
  "statusReply stateInt = frame0 (GetSeqTransportMode sampleIds) [0, 0, 0, of_int stateInt]"

text \<open>A Timecode Connection for sequence 3 in domain 0, connected, and a time reply.\<close>

definition sampleSequenceConnection :: SequenceConnection where
  "sampleSequenceConnection =
     \<lparr>sc_domain = 0, sc_seqId = 3, sc_socket = True, sc_pollTimer = True,
      sc_connected = True, sc_currentState = Unknown\<rparr>"

definition timeReply :: Buffer where
  "timeReply =
     frame0 (GetSeqTime sampleIds) [0, 0, 0, 1,  0, 0, 0, 2,  0, 0, 0, 3,  0, 0, 0, 4]"

text \<open>
  The client after the IDs 3, 7, 2 were listed and the names of 3 and 7 have arrived: the
  request for the name of 2, the last one queued, is outstanding.
\<close>

definition lastNamePending :: PBClient where
  "lastNamePending =
     connectedClient\<lparr>pendingSequenceIds := [3, 7, 2],
                       pendingSequenceNames := [(3, ''Act 1''), (7, ''Act 2'')],
                       currentSequenceNameId := Some 2\<rparr>"

section \<open>Vocabulary of the properties\<close>

text \<open>A number that \<open>writeInt\<close> accepts.\<close>

definition inInt32 :: "int \<Rightarrow> bool" where
  "inInt32 n = (- 2147483648 \<le> n \<and> n \<le> 2147483647)"

text \<open>A buffer that passes the three guards of a data handler configured for a domain.\<close>

definition accepted :: "int \<Rightarrow> Buffer \<Rightarrow> bool" where
  "accepted domainNo data =
     (19 \<le> length data \<and> toString_ascii data 0 4 = PBAU \<and> int32BE data 5 = domainNo)"

text \<open>A buffer that the \<open>switch\<close> of \<open>PBClient.handleData\<close> takes to its error case.\<close>

definition isErrorSentinel :: "CommandId \<Rightarrow> Buffer \<Rightarrow> bool" where
  "isErrorSentinel K data =
     (int16BE data 17 = - 1 \<and> GetSeqTransportMode K \<noteq> - 1
      \<and> GetRemainingTimeUntilNextCue K \<noteq> - 1 \<and> GetSequenceIds K \<noteq> - 1
      \<and> GetSequenceName K \<noteq> - 1)"

text \<open>
  Identifier tables under which the \<open>switch\<close> reaches the cases of the two discovery
  replies: neither identifier coincides with that of an earlier case.
\<close>

definition distinctReplies :: "CommandId \<Rightarrow> bool" where
  "distinctReplies K =
     (GetSequenceIds K \<noteq> GetSeqTransportMode K
      \<and> GetSequenceIds K \<noteq> GetRemainingTimeUntilNextCue K
      \<and> GetSequenceName K \<noteq> GetSeqTransportMode K
      \<and> GetSequenceName K \<noteq> GetRemainingTimeUntilNextCue K
      \<and> GetSequenceName K \<noteq> GetSequenceIds K)"

text \<open>
  A buffer that passes the guards and carries the given ID list: the identifier of "get
  sequence IDs", the count, four unused bytes, and the IDs in little-endian order.
\<close>

definition isIdsReply :: "CommandId \<Rightarrow> int \<Rightarrow> Buffer \<Rightarrow> int list \<Rightarrow> bool" where
  "isIdsReply K domainNo data ids =
     (accepted domainNo data \<and> int16BE data 17 = GetSequenceIds K
      \<and> length data = 27 + 4 * length ids \<and> int32BE data 19 = int (length ids)
      \<and> map (\<lambda>k. int32LE data (27 + 4 * k)) [0..<length ids] = ids)"

text \<open>
  A buffer that passes the guards and carries the given name: the identifier of "get
  sequence name", the length of the name, and its characters.
\<close>

definition isNameReply :: "CommandId \<Rightarrow> int \<Rightarrow> Buffer \<Rightarrow> string \<Rightarrow> bool" where
  "isNameReply K domainNo data s =
     (accepted domainNo data \<and> int16BE data 17 = GetSequenceName K
      \<and> length data = 21 + length s \<and> int16BE data 19 = int (length s)
      \<and> map (\<lambda>k. char_of (u8 data (21 + k))) [0..<length s] = s)"

text \<open>The part of the state that the discovery pipeline works on.\<close>

definition discovery ::
  "PBClient \<Rightarrow> int list \<times> (int \<times> string) list \<times> int list \<times> int option" where
  "discovery c =
     (pendingSequenceIds c, pendingSequenceNames c, sequenceNameQueue c, currentSequenceNameId c)"

text \<open>The lists handed to \<open>onSequencesUpdated\<close> in a sequence of events.\<close>

fun sequencesUpdated :: "event \<Rightarrow> SequenceInfo list option" where
  "sequencesUpdated (OnSequencesUpdated l) = Some l"
| "sequencesUpdated _ = None"

definition notifications :: "event list \<Rightarrow> SequenceInfo list list" where
  "notifications evs = List.map_filter sequencesUpdated evs"

text \<open>Calls of a consumer handler, as opposed to socket writes and rejections.\<close>

fun isCallback :: "event \<Rightarrow> bool" where
  "isCallback (Write m) = False"
| "isCallback (Rejected e) = False"
| "isCallback _ = True"

text \<open>An input that begins a discovery run: a buffer carrying the ID-list identifier.\<close>

fun startsDiscovery :: "CommandId \<Rightarrow> input \<Rightarrow> bool" where
  "startsDiscovery K (Data data) = (19 \<le> length data \<and> int16BE data 17 = GetSequenceIds K)"
| "startsDiscovery K _ = False"

text \<open>
  A buffer that holds everything the decoder of its command reads: the status word, the
  four time fields, the announced number of IDs, the announced number of name bytes.
\<close>

definition frameComplete :: "CommandId \<Rightarrow> Buffer \<Rightarrow> bool" where
  "frameComplete K data =
     (19 \<le> length data \<and>
      (let cmdId = int16BE data 17 in
       if cmdId = GetSeqTransportMode K then 23 \<le> length data
       else if cmdId = GetRemainingTimeUntilNextCue K then 35 \<le> length data
       else if cmdId = GetSequenceIds K
         then 23 \<le> length data \<and> 27 + 4 * nat (int32BE data 19) \<le> length data
       else if cmdId = GetSequenceName K
         then 21 \<le> length data \<and> 21 + nat (int16BE data 19) \<le> length data
       else True))"

definition seq_frameComplete :: "CommandId \<Rightarrow> Buffer \<Rightarrow> bool" where
  "seq_frameComplete K data =
     (19 \<le> length data \<and> (if int16BE data 17 = GetSeqTime K then 35 \<le> length data else True))"

declare readIds.simps [simp del] readName.simps [simp del] decimal.simps [simp del]

section \<open>Auxiliary lemmas\<close>

subsection \<open>The checksum loop and the layout of a frame\<close>

lemma checksum_sum: "checksum buf = sum_list (map uint buf) mod 256"
proof -
  have "foldl (\<lambda>sum b. (sum + uint b) mod 256) a buf = (a + sum_list (map uint buf)) mod 256"
    if "0 \<le> a" "a < 256" for a
    using that by (induction buf arbitrary: a) (auto simp: mod_simps ac_simps)
  thus ?thesis by (simp add: checksum_def)
qed

lemma uint_of_int_byte: "uint (of_int k :: byte) = k mod 256"
  by (simp add: uint_word_of_int)

lemma length_PBAU: "length PBAU = 4"
  by (simp add: PBAU_def)

lemma message_layout:
  assumes "message d commandId parts = Inr m"
  shows "\<exists>db ib. writeInt d = Inr db \<and> writeShort commandId = Inr ib
           \<and> length db = 4 \<and> length ib = 2
           \<and> m = PBAU @ ([1] @ db @ [of_nat ((2 + length (concat parts)) div 256),
                                      of_nat ((2 + length (concat parts)) mod 256)]
                         @ [0, 0, 0, 0, 0])
                  @ [of_int (checksum ([1] @ db @ [of_nat ((2 + length (concat parts)) div 256),
                                                   of_nat ((2 + length (concat parts)) mod 256)]
                                       @ [0, 0, 0, 0, 0]))]
                  @ ib @ concat parts"
  using assms
  by (auto simp: message_def buildHeader_def writeInt_def writeShort_def Let_def
           split: sum.splits if_splits)

lemma send_sample:
  "send connectedClient 72 [] =
     [Write [80, 66, 65, 85, 1, 0, 0, 0, 0, 0, 2, 0, 0, 0, 0, 0, 3, 0, 72]]"
  by code_simp

subsection \<open>Reads at the start of a longer buffer, and the decoding loops\<close>

lemma u8_append: "i < length data \<Longrightarrow> u8 (data @ rest) i = u8 data i"
  by (simp add: u8_def nth_append)

lemma int16BE_append: "off + 2 \<le> length data \<Longrightarrow> int16BE (data @ rest) off = int16BE data off"
  by (simp add: int16BE_def u8_append)

lemma int32BE_append: "off + 4 \<le> length data \<Longrightarrow> int32BE (data @ rest) off = int32BE data off"
  by (simp add: int32BE_def u8_append)

lemma int32LE_append: "off + 4 \<le> length data \<Longrightarrow> int32LE (data @ rest) off = int32LE data off"
  by (simp add: int32LE_def u8_append)

lemma readInt32BE_append:
  "off + 4 \<le> length data \<Longrightarrow> readInt32BE (data @ rest) off = readInt32BE data off"
  by (simp add: readInt32BE_def int32BE_append)

lemma readInt16BE_append:
  "off + 2 \<le> length data \<Longrightarrow> readInt16BE (data @ rest) off = readInt16BE data off"
  by (simp add: readInt16BE_def int16BE_append)

lemma toString_ascii_append:
  "4 \<le> length data \<Longrightarrow> toString_ascii (data @ rest) 0 4 = toString_ascii data 0 4"
  by (simp add: toString_ascii_def)

lemma readIds_eq:
  "readIds data count i off acc
   = acc @ map (\<lambda>k. int32LE data (off + 4 * k))
             [0..<min (nat (count - int i)) ((length data - off) div 4)]"
proof (induction data count i off acc rule: readIds.induct)
  case (1 data count i offset ids)
  show ?case
  proof (cases "int i < count \<and> offset + 4 \<le> length data")
    case True
    let ?n = "min (nat (count - int (i + 1))) ((length data - (offset + 4)) div 4)"
    have a: "nat (count - int i) = Suc (nat (count - int (i + 1)))"
      using True by linarith
    from True obtain d where d: "length data = offset + 4 + d"
      using le_Suc_ex by blast
    have b: "(length data - offset) div 4 = Suc ((length data - (offset + 4)) div 4)"
      unfolding d by simp
    have n: "min (nat (count - int i)) ((length data - offset) div 4) = Suc ?n"
      unfolding a b by simp
    have "readIds data count i offset ids
          = readIds data count (i + 1) (offset + 4) (ids @ [int32LE data offset])"
      using True by (subst readIds.simps) simp
    also have "\<dots> = (ids @ [int32LE data offset])
                     @ map (\<lambda>k. int32LE data (offset + 4 + 4 * k)) [0..<?n]"
      using 1 True by blast
    also have "\<dots> = ids @ map (\<lambda>k. int32LE data (offset + 4 * k)) [0..<Suc ?n]"
      unfolding map_upt_Suc by (simp add: ac_simps)
    finally show ?thesis unfolding n .
  next
    case False
    then have z: "min (nat (count - int i)) ((length data - offset) div 4) = 0"
      by (auto simp: min_def)
    have "readIds data count i offset ids = ids"
      using False by (subst readIds.simps) auto
    then show ?thesis unfolding z by simp
  qed
qed

lemma readName_eq:
  "readName data strLen i name
   = name @ map (\<lambda>k. char_of (u8 data (21 + i + k)))
              [0..<min (nat (strLen - int i)) (length data - (21 + i))]"
proof (induction data strLen i name rule: readName.induct)
  case (1 data strLen i name)
  show ?case
  proof (cases "int i < strLen \<and> 21 + i < length data")
    case True
    let ?n = "min (nat (strLen - int (i + 1))) (length data - (21 + (i + 1)))"
    have a: "nat (strLen - int i) = Suc (nat (strLen - int (i + 1)))"
      using True by linarith
    have b: "length data - (21 + i) = Suc (length data - (21 + (i + 1)))"
      using True by linarith
    have n: "min (nat (strLen - int i)) (length data - (21 + i)) = Suc ?n"
      unfolding a b by simp
    have "readName data strLen i name
          = readName data strLen (i + 1) (name @ [char_of (u8 data (21 + i))])"
      using True by (subst readName.simps) simp
    also have "\<dots> = (name @ [char_of (u8 data (21 + i))])
                     @ map (\<lambda>k. char_of (u8 data (21 + (i + 1) + k))) [0..<?n]"
      using 1 True by blast
    also have "\<dots> = name @ map (\<lambda>k. char_of (u8 data (21 + i + k))) [0..<Suc ?n]"
      unfolding map_upt_Suc by (simp add: ac_simps)
    finally show ?thesis unfolding n .
  next
    case False
    then have z: "min (nat (strLen - int i)) (length data - (21 + i)) = 0"
      by (auto simp: min_def)
    have "readName data strLen i name = name"
      using False by (subst readName.simps) auto
    then show ?thesis unfolding z by simp
  qed
qed

lemma readIds_append:
  assumes "27 + 4 * nat count \<le> length data"
  shows "readIds (data @ rest) count 0 27 [] = readIds data count 0 27 []"
proof -
  have "nat count \<le> (length data - 27) div 4" "nat count \<le> (length (data @ rest) - 27) div 4"
    using assms by (simp_all; linarith)+
  then have m1: "min (nat count) ((length (data @ rest) - 27) div 4) = nat count"
    and m2: "min (nat count) ((length data - 27) div 4) = nat count"
    by (simp_all only: min_absorb1)
  have "k < nat count \<Longrightarrow> int32LE (data @ rest) (27 + 4 * k) = int32LE data (27 + 4 * k)" for k
    using assms by (intro int32LE_append) linarith
  then show ?thesis
    unfolding readIds_eq using m1 m2 by simp
qed

lemma readName_append:
  assumes "21 + nat strLen \<le> length data"
  shows "readName (data @ rest) strLen 0 [] = readName data strLen 0 []"
proof -
  have m1: "min (nat strLen) (length (data @ rest) - 21) = nat strLen"
    using assms by (simp add: min_def) 
  have m2: "min (nat strLen) (length data - 21) = nat strLen"
    using assms by (simp add: min_def) 
  have "k < nat strLen \<Longrightarrow> u8 (data @ rest) (21 + k) = u8 data (21 + k)" for k
    using assms by (intro u8_append) linarith
  then show ?thesis
    unfolding readName_eq using m1 m2 by simp
qed

lemma handleData_try_append:
  assumes "frameComplete K data"
  shows "handleData_try K c (data @ rest) = handleData_try K c data"
proof -
  from assms have l: "19 \<le> length data" by (simp add: frameComplete_def)
  have g: "toString_ascii (data @ rest) 0 4 = toString_ascii data 0 4"
          "readInt32BE (data @ rest) 5 = readInt32BE data 5"
          "readInt16BE (data @ rest) 17 = readInt16BE data 17"
    using l by (simp_all add: toString_ascii_append readInt32BE_append readInt16BE_append)
  have cmd: "readInt16BE data 17 = Inr (int16BE data 17)"
    using l by (simp add: readInt16BE_def)
  have s: "caseGetSeqTransportMode K c (data @ rest) = caseGetSeqTransportMode K c data"
    if "int16BE data 17 = GetSeqTransportMode K"
    using that assms by (simp add: frameComplete_def caseGetSeqTransportMode_def int32BE_append)
  have r: "caseGetRemainingTimeUntilNextCue c (data @ rest) = caseGetRemainingTimeUntilNextCue c data"
    if "int16BE data 17 = GetRemainingTimeUntilNextCue K" "int16BE data 17 \<noteq> GetSeqTransportMode K"
  proof -
    from that assms have "35 \<le> length data" by (simp add: frameComplete_def)
    then have "readInt32BE (data @ rest) 19 = readInt32BE data 19"
      "readInt32BE (data @ rest) 23 = readInt32BE data 23"
      "readInt32BE (data @ rest) 27 = readInt32BE data 27"
      "readInt32BE (data @ rest) 31 = readInt32BE data 31"
      by (simp_all add: readInt32BE_append)
    then show ?thesis unfolding caseGetRemainingTimeUntilNextCue_def by (simp only:)
  qed
  have i: "caseGetSequenceIds K c (data @ rest) = caseGetSequenceIds K c data"
    if "int16BE data 17 = GetSequenceIds K" "int16BE data 17 \<noteq> GetSeqTransportMode K"
       "int16BE data 17 \<noteq> GetRemainingTimeUntilNextCue K"
  proof -
    from that assms have b: "23 \<le> length data" "27 + 4 * nat (int32BE data 19) \<le> length data"
      by (simp_all add: frameComplete_def)
    have "readInt32BE (data @ rest) 19 = Inr (int32BE data 19)"
         "readInt32BE data 19 = Inr (int32BE data 19)"
      using b by (simp_all add: readInt32BE_def int32BE_append)
    then show ?thesis
      unfolding caseGetSequenceIds_def by (simp add: readIds_append [OF b(2)])
  qed
  have n: "caseGetSequenceName K c (data @ rest) = caseGetSequenceName K c data"
    if "int16BE data 17 = GetSequenceName K" "int16BE data 17 \<noteq> GetSeqTransportMode K"
       "int16BE data 17 \<noteq> GetRemainingTimeUntilNextCue K" "int16BE data 17 \<noteq> GetSequenceIds K"
  proof -
    from that assms have b: "21 \<le> length data" "21 + nat (int16BE data 19) \<le> length data"
      by (simp_all add: frameComplete_def)
    have "readInt16BE (data @ rest) 19 = Inr (int16BE data 19)"
         "readInt16BE data 19 = Inr (int16BE data 19)"
      using b by (simp_all add: readInt16BE_def int16BE_append)
    then show ?thesis
      unfolding caseGetSequenceName_def
      by (simp add: readName_append [OF b(2)] split: option.splits)
  qed
  show ?thesis
    unfolding handleData_try_def g using l s r i n
    by (auto simp: cmd split: sum.splits)
qed

lemma seq_handleData_try_append:
  assumes "seq_frameComplete K data"
  shows "seq_handleData_try K sc (data @ rest) = seq_handleData_try K sc data"
proof -
  from assms have l: "19 \<le> length data" by (simp add: seq_frameComplete_def)
  have g: "toString_ascii (data @ rest) 0 4 = toString_ascii data 0 4"
          "readInt32BE (data @ rest) 5 = readInt32BE data 5"
          "readInt16BE (data @ rest) 17 = readInt16BE data 17"
    using l by (simp_all add: toString_ascii_append readInt32BE_append readInt16BE_append)
  have cmd: "readInt16BE data 17 = Inr (int16BE data 17)"
    using l by (simp add: readInt16BE_def)
  show ?thesis
    unfolding seq_handleData_try_def g using l assms
    by (auto simp: cmd seq_frameComplete_def int32BE_append split: sum.splits)
qed

subsection \<open>Which events the operations produce\<close>

lemma sendParts_no_callback: "e \<in> set (sendParts c commandId args) \<Longrightarrow> \<not> isCallback e"
  by (auto simp: sendParts_def send_def split: sum.splits if_splits)

lemma filter_sendParts: "filter isCallback (sendParts c commandId args) = []"
  by (auto simp: filter_empty_conv dest: sendParts_no_callback)

lemma filter_processStatusRequestQueue:
  "filter isCallback (fst (processStatusRequestQueue K c)) = []"
  by (auto simp: processStatusRequestQueue_def Let_def filter_sendParts split: list.splits)

lemma filter_processSequenceNameQueue:
  "filter isCallback (fst (processSequenceNameQueue K c)) = []"
  by (auto simp: processSequenceNameQueue_def fetchSequenceName_def Let_def filter_sendParts
           split: list.splits)

lemma filter_caseErrorReply: "filter isCallback (fst (caseErrorReply K c)) = []"
  by (auto simp: caseErrorReply_def Let_def filter_processStatusRequestQueue
        filter_processSequenceNameQueue split: option.splits prod.splits)
     (metis fst_conv filter_processStatusRequestQueue filter_processSequenceNameQueue)+

lemma notifications_append [simp]: "notifications (a @ b) = notifications a @ notifications b"
  by (simp add: notifications_def map_filter_def)

lemma notifications_Nil [simp]: "notifications [] = []"
  by (simp add: notifications_def map_filter_def)

lemma notifications_no_callback: "filter isCallback evs = [] \<Longrightarrow> notifications evs = []"
proof (induction evs)
  case Nil
  then show ?case by simp
next
  case (Cons e evs)
  then show ?case by (cases e) (auto simp: notifications_def map_filter_def split: if_splits)
qed

lemma handleData_try_Inr_callbacks:
  "handleData_try K c data = Inr r \<Longrightarrow> length (filter isCallback (fst r)) \<le> 1"
  by (auto simp: handleData_try_def caseGetSeqTransportMode_def caseGetRemainingTimeUntilNextCue_def
        caseGetSequenceIds_def caseGetSequenceName_def Let_def
        filter_processStatusRequestQueue filter_processSequenceNameQueue filter_caseErrorReply
        split: if_splits sum.splits option.splits prod.splits)
     (metis fst_conv filter_processStatusRequestQueue list.size(3) zero_le)+

lemma handleData_callbacks: "length (filter isCallback (fst (handleData K c data))) \<le> 1"
  by (auto simp: handleData_def dest: handleData_try_Inr_callbacks split: sum.splits)

subsection \<open>The state after the name queue was processed\<close>

lemma seq_handleData_callbacks: "length (filter isCallback (fst (seq_handleData K sc data))) \<le> 1"
  by (auto simp: seq_handleData_def seq_handleData_try_def split: sum.splits if_splits)

lemma processSequenceNameQueue_fields:
  "pendingSequenceIds (snd (processSequenceNameQueue K c)) = pendingSequenceIds c"
  "pendingSequenceNames (snd (processSequenceNameQueue K c)) = pendingSequenceNames c"
  "sequenceNameQueue (snd (processSequenceNameQueue K c)) = tl (sequenceNameQueue c)"
  "currentSequenceNameId (snd (processSequenceNameQueue K c))
     = (if sequenceNameQueue c = [] then currentSequenceNameId c
        else Some (hd (sequenceNameQueue c)))"
  by (simp_all add: processSequenceNameQueue_def fetchSequenceName_def Let_def split: list.splits)

subsection \<open>The name pipeline at rest\<close>

lemma processStatusRequestQueue_name_fields:
  "currentSequenceNameId (snd (processStatusRequestQueue K c)) = currentSequenceNameId c"
  "sequenceNameQueue (snd (processStatusRequestQueue K c)) = sequenceNameQueue c"
  by (simp_all add: processStatusRequestQueue_def Let_def split: list.splits)

lemma notifications_processStatusRequestQueue:
  "notifications (fst (processStatusRequestQueue K c)) = []"
  by (simp add: notifications_no_callback filter_processStatusRequestQueue)

lemma notifications_processSequenceNameQueue:
  "notifications (fst (processSequenceNameQueue K c)) = []"
  by (simp add: notifications_no_callback filter_processSequenceNameQueue)

lemma notifications_caseErrorReply: "notifications (fst (caseErrorReply K c)) = []"
  by (simp add: notifications_no_callback filter_caseErrorReply)

lemma caseGetSeqTransportMode_name_fields:
  assumes "caseGetSeqTransportMode K c data = Inr (evs, c')"
  shows "notifications evs = [] \<and> currentSequenceNameId c' = currentSequenceNameId c
         \<and> sequenceNameQueue c' = sequenceNameQueue c"
proof (cases "23 \<le> length data")
  case False
  with assms show ?thesis by (auto simp: caseGetSeqTransportMode_def Let_def)
next
  case True
  show ?thesis
  proof (cases "currentStatusRequestId c")
    case None
    with True assms show ?thesis
      by (auto simp: caseGetSeqTransportMode_def Let_def notifications_def map_filter_def)
  next
    case (Some cur)
    let ?c2 = "updateSequenceState (c\<lparr>statusRequestPending := False\<rparr>) cur
                 (transportStateOf (int32BE data 19))"
    from True Some assms
    have e: "evs = OnSequenceTransport cur (transportStateOf (int32BE data 19))
                   # fst (processStatusRequestQueue K ?c2)"
      and c': "c' = snd (processStatusRequestQueue K ?c2)"
      by (auto simp: caseGetSeqTransportMode_def Let_def split: prod.splits)
    have "notifications evs = notifications (fst (processStatusRequestQueue K ?c2))"
      unfolding e by (simp add: notifications_def map_filter_def)
    then show ?thesis
      unfolding c'
      by (simp add: notifications_processStatusRequestQueue processStatusRequestQueue_name_fields
            updateSequenceState_def)
  qed
qed

lemma caseGetRemainingTimeUntilNextCue_name_fields:
  assumes "caseGetRemainingTimeUntilNextCue c data = Inr (evs, c')"
  shows "notifications evs = [] \<and> c' = c"
  using assms
  by (auto simp: caseGetRemainingTimeUntilNextCue_def notifications_def map_filter_def
           split: sum.splits)

lemma caseErrorReply_name_idle:
  assumes "currentSequenceNameId c = None"
  shows "currentSequenceNameId (snd (caseErrorReply K c)) = None
         \<and> sequenceNameQueue (snd (caseErrorReply K c)) = sequenceNameQueue c"
proof -
  obtain evs1 c1 where
    s: "(case currentStatusRequestId c of
               None \<Rightarrow> ([], c)
             | Some invalidId \<Rightarrow>
                 processStatusRequestQueue K
                   (c\<lparr>pollSequenceIds := filter (\<lambda>i. i \<noteq> invalidId) (pollSequenceIds c)\<rparr>))
        = (evs1, c1)"
    by fastforce
  have c1: "currentSequenceNameId c1 = None" "sequenceNameQueue c1 = sequenceNameQueue c"
    using s assms
    by (auto simp: processStatusRequestQueue_def Let_def split: option.splits if_splits list.splits)
  show ?thesis
    unfolding caseErrorReply_def s using c1 by simp
qed

lemma caseErrorReply_final_request:
  assumes "currentSequenceNameId c = Some i" and "sequenceNameQueue c = []"
  shows "currentSequenceNameId (snd (caseErrorReply K c)) = None
         \<and> sequenceNameQueue (snd (caseErrorReply K c)) = []
         \<and> pendingSequenceIds (snd (caseErrorReply K c))
             = filter (\<lambda>x. x \<noteq> i) (pendingSequenceIds c)
         \<and> pendingSequenceNames (snd (caseErrorReply K c)) = pendingSequenceNames c"
proof -
  obtain evs1 c1 where
    s: "(case currentStatusRequestId c of
               None \<Rightarrow> ([], c)
             | Some invalidId \<Rightarrow>
                 processStatusRequestQueue K
                   (c\<lparr>pollSequenceIds := filter (\<lambda>i. i \<noteq> invalidId) (pollSequenceIds c)\<rparr>))
        = (evs1, c1)"
    by fastforce
  have c1: "currentSequenceNameId c1 = Some i" "sequenceNameQueue c1 = []"
    "pendingSequenceIds c1 = pendingSequenceIds c" "pendingSequenceNames c1 = pendingSequenceNames c"
    using s assms
    by (auto simp: processStatusRequestQueue_def Let_def split: option.splits if_splits list.splits)
  show ?thesis
    unfolding caseErrorReply_def s using c1
    by (simp add: processSequenceNameQueue_def)
qed

lemma handleData_try_accepted:
  assumes "accepted (domain c) data"
  shows "handleData_try K c data =
     (if int16BE data 17 = GetSeqTransportMode K then caseGetSeqTransportMode K c data
      else if int16BE data 17 = GetRemainingTimeUntilNextCue K
           then caseGetRemainingTimeUntilNextCue c data
      else if int16BE data 17 = GetSequenceIds K then caseGetSequenceIds K c data
      else if int16BE data 17 = GetSequenceName K then caseGetSequenceName K c data
      else if int16BE data 17 = 0xFFFF \<or> int16BE data 17 = - 1 then Inr (caseErrorReply K c)
      else Inr ([], c))"
proof -
  from assms have "\<not> length data < 19" "toString_ascii data 0 4 = PBAU"
    "readInt32BE data 5 = Inr (domain c)" "readInt16BE data 17 = Inr (int16BE data 17)"
    by (simp_all add: accepted_def readInt32BE_def readInt16BE_def)
  then show ?thesis unfolding handleData_try_def by simp
qed

lemma handleData_try_name_idle:
  assumes "currentSequenceNameId c = None" and "sequenceNameQueue c = []"
    and "\<not> startsDiscovery K (Data data)"
    and "handleData_try K c data = Inr (evs, c')"
  shows "notifications evs = [] \<and> currentSequenceNameId c' = None \<and> sequenceNameQueue c' = []"
proof (cases "accepted (domain c) data")
  case False
  with assms(4) have "evs = [] \<and> c' = c"
    by (auto simp: handleData_try_def accepted_def readInt32BE_def split: if_splits)
  with assms show ?thesis by simp
next
  case True
  then have l: "19 \<le> length data" by (simp add: accepted_def)
  with assms(3) have nd: "int16BE data 17 \<noteq> GetSequenceIds K" by simp
  note d = assms(4) [unfolded handleData_try_accepted [OF True]]
  show ?thesis
  proof (cases "int16BE data 17 = GetSeqTransportMode K")
    case True
    with d have "caseGetSeqTransportMode K c data = Inr (evs, c')" by simp
    from caseGetSeqTransportMode_name_fields [OF this] assms show ?thesis by simp
  next
    case n1: False
    show ?thesis
    proof (cases "int16BE data 17 = GetRemainingTimeUntilNextCue K")
      case True
      with d n1 have "caseGetRemainingTimeUntilNextCue c data = Inr (evs, c')" by simp
      from caseGetRemainingTimeUntilNextCue_name_fields [OF this] assms show ?thesis by simp
    next
      case n2: False
      show ?thesis
      proof (cases "int16BE data 17 = GetSequenceName K")
        case True
        with d n1 n2 nd have "caseGetSequenceName K c data = Inr (evs, c')" by simp
        with assms show ?thesis by (simp add: caseGetSequenceName_def)
      next
        case n3: False
        show ?thesis
        proof (cases "int16BE data 17 = 0xFFFF \<or> int16BE data 17 = - 1")
          case True
          with d n1 n2 n3 nd have e: "caseErrorReply K c = (evs, c')" by simp
          from caseErrorReply_name_idle [OF assms(1), of K] notifications_caseErrorReply [of K c]
          show ?thesis unfolding e using assms(2) by simp
        next
          case False
          with d n1 n2 n3 nd have "evs = []" "c' = c" by simp_all
          with assms show ?thesis by simp
        qed
      qed
    qed
  qed
qed

lemma step_name_idle:
  assumes "currentSequenceNameId c = None" and "sequenceNameQueue c = []"
    and "\<not> startsDiscovery K inp"
  shows "notifications (fst (step K c inp)) = []
         \<and> currentSequenceNameId (snd (step K c inp)) = None
         \<and> sequenceNameQueue (snd (step K c inp)) = []"
proof (cases inp)
  case Tick
  with assms show ?thesis
    by (simp add: statusPollTick_def notifications_processStatusRequestQueue
          processStatusRequestQueue_name_fields)
next
  case RefreshSequences
  have "notifications (sendParts c' commandId args) = []" for c' commandId args
    by (simp add: notifications_no_callback filter_sendParts)
  with RefreshSequences assms show ?thesis
    by (simp add: refreshSequences_def Let_def)
next
  case (Data data)
  show ?thesis
  proof (cases "handleData_try K c data")
    case (Inl e)
    with Data assms show ?thesis
      by (simp add: handleData_def notifications_def map_filter_def)
  next
    case (Inr r)
    obtain evs c' where r: "r = (evs, c')" by (cases r)
    from handleData_try_name_idle [OF assms(1,2) _ Inr [unfolded r]] assms(3) Data
    show ?thesis by (simp add: handleData_def Inr r)
  qed
qed

lemma run_name_idle:
  assumes "currentSequenceNameId c = None" and "sequenceNameQueue c = []"
    and "\<forall>x\<in>set ins. \<not> startsDiscovery K x"
  shows "notifications (fst (run K c ins)) = []"
  using assms
proof (induction ins arbitrary: c)
  case Nil
  then show ?case by simp
next
  case (Cons inp ins)
  from step_name_idle [OF Cons.prems(1,2), of K inp] Cons.prems(3)
  have s: "notifications (fst (step K c inp)) = []"
       "currentSequenceNameId (snd (step K c inp)) = None"
       "sequenceNameQueue (snd (step K c inp)) = []"
    by simp_all
  from Cons.IH [OF s(2,3)] Cons.prems(3)
  have "notifications (fst (run K (snd (step K c inp)) ins)) = []" by simp
  with s(1) show ?case by (simp add: split_beta Let_def)
qed

lemma caseGetSequenceIds_notifications:
  "caseGetSequenceIds K c data = Inr (evs, c') \<Longrightarrow> notifications evs = []"
  using notifications_processSequenceNameQueue
  by (auto simp: caseGetSequenceIds_def Let_def split: sum.splits) (metis fst_conv)

lemma handleData_try_notifies:
  assumes "handleData_try K c data = Inr (evs, c')" and "notifications evs \<noteq> []"
  shows "accepted (domain c) data \<and> int16BE data 17 = GetSequenceName K
         \<and> currentSequenceNameId c \<noteq> None"
proof -
  have a: "accepted (domain c) data"
  proof (rule ccontr)
    assume "\<not> accepted (domain c) data"
    with assms(1) have "evs = []"
      by (auto simp: handleData_try_def accepted_def readInt32BE_def split: if_splits)
    with assms(2) show False by simp
  qed
  note d = assms(1) [unfolded handleData_try_accepted [OF a]]
  have n1: "int16BE data 17 \<noteq> GetSeqTransportMode K"
  proof
    assume "int16BE data 17 = GetSeqTransportMode K"
    with d have "caseGetSeqTransportMode K c data = Inr (evs, c')" by simp
    from caseGetSeqTransportMode_name_fields [OF this] assms(2) show False by simp
  qed
  have n2: "int16BE data 17 \<noteq> GetRemainingTimeUntilNextCue K"
  proof
    assume "int16BE data 17 = GetRemainingTimeUntilNextCue K"
    with d n1 have "caseGetRemainingTimeUntilNextCue c data = Inr (evs, c')" by simp
    from caseGetRemainingTimeUntilNextCue_name_fields [OF this] assms(2) show False by simp
  qed
  have n3: "int16BE data 17 \<noteq> GetSequenceIds K"
  proof
    assume "int16BE data 17 = GetSequenceIds K"
    with d n1 n2 have "caseGetSequenceIds K c data = Inr (evs, c')" by simp
    from caseGetSequenceIds_notifications [OF this] assms(2) show False by simp
  qed
  have n4: "int16BE data 17 = GetSequenceName K"
  proof (rule ccontr)
    assume n: "int16BE data 17 \<noteq> GetSequenceName K"
    show False
    proof (cases "int16BE data 17 = 0xFFFF \<or> int16BE data 17 = - 1")
      case True
      with d n1 n2 n3 n have "caseErrorReply K c = (evs, c')" by simp
      with notifications_caseErrorReply [of K c] assms(2) show False by simp
    next
      case False
      with d n1 n2 n3 n have "evs = []" by simp
      with assms(2) show False by simp
    qed
  qed
  have "currentSequenceNameId c \<noteq> None"
  proof
    assume "currentSequenceNameId c = None"
    with d n1 n2 n3 n4 have "evs = []" by (simp add: caseGetSequenceName_def)
    with assms(2) show False by simp
  qed
  with a n4 show ?thesis by simp
qed

subsection \<open>Guards and range checks of the senders\<close>

lemma send_guard: "\<not> socket c \<or> connecting c \<Longrightarrow> send c commandId parts = []"
  by (auto simp: send_def)

lemma writeInt_Inr:
  "inInt32 a \<Longrightarrow>
   writeInt a = Inr [of_int (a div 16777216), of_int (a div 65536), of_int (a div 256), of_int a]"
  by (simp add: inInt32_def writeInt_def)

lemma writeShort_Inr:
  "0 \<le> n \<Longrightarrow> n \<le> 65535 \<Longrightarrow> writeShort n = Inr [of_int (n div 256), of_int n]"
  by (simp add: writeShort_def)

subsection \<open>The discovery pipeline step by step\<close>

lemma handleData_GetSequenceIds:
  assumes "accepted (domain c) data" and "23 \<le> length data"
    and "int16BE data 17 = GetSequenceIds K"
    and "GetSequenceIds K \<noteq> GetSeqTransportMode K"
    and "GetSequenceIds K \<noteq> GetRemainingTimeUntilNextCue K"
    and "ids = map (\<lambda>k. int32LE data (27 + 4 * k))
                 [0..<min (nat (int32BE data 19)) ((length data - 27) div 4)]"
  shows "handleData K c data
         = processSequenceNameQueue K
             (c\<lparr>pendingSequenceIds := ids, sequenceNameQueue := ids, pendingSequenceNames := []\<rparr>)"
proof -
  have r: "readIds data (int32BE data 19) 0 27 [] = ids"
    by (simp add: readIds_eq assms(6))
  have "handleData_try K c data = caseGetSequenceIds K c data"
    using assms(1-5) by (simp add: handleData_try_accepted)
  also have "\<dots> = Inr (processSequenceNameQueue K
             (c\<lparr>pendingSequenceIds := ids, sequenceNameQueue := ids, pendingSequenceNames := []\<rparr>))"
    using assms(2) by (simp add: caseGetSequenceIds_def readInt32BE_def r Let_def)
  finally show ?thesis by (simp add: handleData_def)
qed

lemma processSequenceNameQueue_domain:
  "domain (snd (processSequenceNameQueue K c)) = domain c"
  by (simp add: processSequenceNameQueue_def fetchSequenceName_def Let_def split: list.splits)

lemma discovery_processSequenceNameQueue:
  "discovery (snd (processSequenceNameQueue K c))
   = (pendingSequenceIds c, pendingSequenceNames c, tl (sequenceNameQueue c),
      if sequenceNameQueue c = [] then currentSequenceNameId c
      else Some (hd (sequenceNameQueue c)))"
  by (simp add: discovery_def processSequenceNameQueue_fields)

lemma refresh_step:
  "discovery (snd (refreshSequences K c)) = ([], [], [], currentSequenceNameId c)"
  "domain (snd (refreshSequences K c)) = domain c"
  "notifications (fst (refreshSequences K c)) = []"
  by (simp_all add: refreshSequences_def Let_def discovery_def notifications_no_callback
        filter_sendParts)

lemma ids_step:
  assumes "distinctReplies K" and "isIdsReply K (domain c) data ids"
  shows "discovery (snd (handleData K c data))
         = (ids, [], tl ids, if ids = [] then currentSequenceNameId c else Some (hd ids))"
    and "domain (snd (handleData K c data)) = domain c"
    and "notifications (fst (handleData K c data)) = []"
proof -
  from assms(2) have l: "length data = 27 + 4 * length ids"
    and n: "int32BE data 19 = int (length ids)"
    and m: "map (\<lambda>k. int32LE data (27 + 4 * k)) [0..<length ids] = ids"
    by (simp_all add: isIdsReply_def)
  have "min (nat (int32BE data 19)) ((length data - 27) div 4) = length ids"
    unfolding l n by simp
  then have i: "ids = map (\<lambda>k. int32LE data (27 + 4 * k))
                 [0..<min (nat (int32BE data 19)) ((length data - 27) div 4)]"
    using m by simp
  have h: "handleData K c data
         = processSequenceNameQueue K
             (c\<lparr>pendingSequenceIds := ids, sequenceNameQueue := ids, pendingSequenceNames := []\<rparr>)"
    using assms l by (intro handleData_GetSequenceIds [OF _ _ _ _ _ i])
      (simp_all add: isIdsReply_def distinctReplies_def)
  show "discovery (snd (handleData K c data))
         = (ids, [], tl ids, if ids = [] then currentSequenceNameId c else Some (hd ids))"
    unfolding h by (simp add: discovery_processSequenceNameQueue)
  show "domain (snd (handleData K c data)) = domain c"
    unfolding h by (simp add: processSequenceNameQueue_domain)
  show "notifications (fst (handleData K c data)) = []"
    unfolding h by (rule notifications_processSequenceNameQueue)
qed

lemma name_step:
  assumes "distinctReplies K" and "isNameReply K (domain c) data s"
    and "discovery c = (ids, names, queue, Some cur)"
  shows "domain (snd (handleData K c data)) = domain c"
    and "length (AList.update cur s names) = length ids \<Longrightarrow>
         discovery (snd (handleData K c data)) = (ids, AList.update cur s names, queue, None)
         \<and> notifications (fst (handleData K c data))
             = [map (sequenceInfoFor (AList.update cur s names)) ids]"
    and "length (AList.update cur s names) \<noteq> length ids \<Longrightarrow>
         discovery (snd (handleData K c data))
           = (ids, AList.update cur s names, tl queue,
              if queue = [] then None else Some (hd queue))
         \<and> notifications (fst (handleData K c data)) = []"
proof -
  from assms(3) have d: "pendingSequenceIds c = ids" "pendingSequenceNames c = names"
    "sequenceNameQueue c = queue" "currentSequenceNameId c = Some cur"
    by (simp_all add: discovery_def)
  from assms(2) have a: "accepted (domain c) data" and l: "length data = 21 + length s"
    and n: "int16BE data 19 = int (length s)"
    and m: "map (\<lambda>k. char_of (u8 data (21 + k))) [0..<length s] = s"
    by (simp_all add: isNameReply_def)
  have r: "readName data (int16BE data 19) 0 [] = s"
    unfolding readName_eq n l using m by simp
  let ?c1 = "c\<lparr>pendingSequenceNames := AList.update cur s names, currentSequenceNameId := None\<rparr>"
  have "handleData_try K c data = caseGetSequenceName K c data"
    using assms(1,2) by (simp add: handleData_try_accepted isNameReply_def distinctReplies_def)
  also have "\<dots> = (if length (AList.update cur s names) = length ids
                   then Inr ([OnSequencesUpdated (map (sequenceInfoFor (AList.update cur s names)) ids)], ?c1)
                   else Inr (processSequenceNameQueue K ?c1))"
    using l by (simp add: caseGetSequenceName_def d readInt16BE_def r Let_def)
  finally have h: "handleData K c data
        = (if length (AList.update cur s names) = length ids
           then ([OnSequencesUpdated (map (sequenceInfoFor (AList.update cur s names)) ids)], ?c1)
           else processSequenceNameQueue K ?c1)"
    by (simp add: handleData_def)
  show "domain (snd (handleData K c data)) = domain c"
    unfolding h by (simp add: processSequenceNameQueue_domain)
  show "discovery (snd (handleData K c data)) = (ids, AList.update cur s names, queue, None)
         \<and> notifications (fst (handleData K c data))
             = [map (sequenceInfoFor (AList.update cur s names)) ids]"
    if "length (AList.update cur s names) = length ids"
    unfolding h using that d by (simp add: discovery_def notifications_def map_filter_def)
  show "discovery (snd (handleData K c data))
           = (ids, AList.update cur s names, tl queue,
              if queue = [] then None else Some (hd queue))
         \<and> notifications (fst (handleData K c data)) = []"
    if "length (AList.update cur s names) \<noteq> length ids"
    unfolding h using that d
    by (simp add: discovery_processSequenceNameQueue notifications_processSequenceNameQueue)
qed

lemma error_step:
  assumes "accepted (domain c) data" and "isErrorSentinel K data"
    and "discovery c = (ids, names, queue, Some cur)"
  shows "domain (snd (handleData K c data)) = domain c"
    and "discovery (snd (handleData K c data))
           = (filter (\<lambda>x. x \<noteq> cur) ids, names, tl queue,
              if queue = [] then None else Some (hd queue))"
    and "notifications (fst (handleData K c data)) = []"
proof -
  from assms(3) have d: "pendingSequenceIds c = ids" "pendingSequenceNames c = names"
    "sequenceNameQueue c = queue" "currentSequenceNameId c = Some cur"
    by (simp_all add: discovery_def)
  from assms(1,2) have "handleData_try K c data = Inr (caseErrorReply K c)"
    by (simp add: handleData_try_accepted isErrorSentinel_def)
  then have h: "handleData K c data = caseErrorReply K c"
    by (simp add: handleData_def)
  obtain evs1 c1 where
    s: "(case currentStatusRequestId c of
               None \<Rightarrow> ([], c)
             | Some invalidId \<Rightarrow>
                 processStatusRequestQueue K
                   (c\<lparr>pollSequenceIds := filter (\<lambda>i. i \<noteq> invalidId) (pollSequenceIds c)\<rparr>))
        = (evs1, c1)"
    by fastforce
  have c1: "discovery c1 = discovery c" "domain c1 = domain c"
    using s
    by (auto simp: discovery_def processStatusRequestQueue_def Let_def
             split: option.splits if_splits list.splits)
  then have c1': "pendingSequenceIds c1 = ids" "currentSequenceNameId c1 = Some cur"
    "pendingSequenceNames c1 = names" "sequenceNameQueue c1 = queue"
    using d by (simp_all add: discovery_def)
  have e: "caseErrorReply K c
           = (evs1 @ fst (processSequenceNameQueue K
                 (c1\<lparr>pendingSequenceIds := filter (\<lambda>i. i \<noteq> cur) ids,
                      currentSequenceNameId := None\<rparr>)),
              snd (processSequenceNameQueue K
                 (c1\<lparr>pendingSequenceIds := filter (\<lambda>i. i \<noteq> cur) ids,
                      currentSequenceNameId := None\<rparr>)))"
    unfolding caseErrorReply_def s using c1' by (simp add: split_beta)
  show "domain (snd (handleData K c data)) = domain c"
    unfolding h e using c1 by (simp add: processSequenceNameQueue_domain)
  show "discovery (snd (handleData K c data))
           = (filter (\<lambda>x. x \<noteq> cur) ids, names, tl queue,
              if queue = [] then None else Some (hd queue))"
    unfolding h e using c1' by (simp add: discovery_processSequenceNameQueue)
  show "notifications (fst (handleData K c data)) = []"
    unfolding h by (rule notifications_caseErrorReply)
qed

lemma run_snoc:
  "run K c (ins @ [i])
   = (fst (run K c ins) @ fst (step K (snd (run K c ins)) i),
      snd (step K (snd (run K c ins)) i))"
  by (induction ins arbitrary: c) (simp_all add: split_beta)

lemma run_snoc_Data:
  "snd (run K c (ins @ [Data d])) = snd (handleData K (snd (run K c ins)) d)"
  "notifications (fst (run K c (ins @ [Data d])))
   = notifications (fst (run K c ins)) @ notifications (fst (handleData K (snd (run K c ins)) d))"
  by (simp_all add: run_snoc)

subsection \<open>The status pipeline while a request is pending\<close>

lemma processSequenceNameQueue_status_fields:
  "pollSequenceIds (snd (processSequenceNameQueue K c)) = pollSequenceIds c"
  "statusRequestQueue (snd (processSequenceNameQueue K c)) = statusRequestQueue c"
  "currentStatusRequestId (snd (processSequenceNameQueue K c)) = currentStatusRequestId c"
  "statusRequestPending (snd (processSequenceNameQueue K c)) = statusRequestPending c"
  by (simp_all add: processSequenceNameQueue_def fetchSequenceName_def Let_def split: list.splits)

lemma processStatusRequestQueue_pending:
  "statusRequestPending c \<Longrightarrow> processStatusRequestQueue K c = ([], c)"
  by (simp add: processStatusRequestQueue_def)

lemma send_cong:
  "socket c = socket d \<Longrightarrow> connecting c = connecting d \<Longrightarrow> domain c = domain d \<Longrightarrow>
   send c commandId parts = send d commandId parts"
  by (simp add: send_def)

lemma sendParts_cong:
  "socket c = socket d \<Longrightarrow> connecting c = connecting d \<Longrightarrow> domain c = domain d \<Longrightarrow>
   sendParts c commandId args = sendParts d commandId args"
  by (simp add: sendParts_def send_cong [of c d] split: sum.splits)

lemma processSequenceNameQueue_events_cong:
  assumes "sequenceNameQueue c = sequenceNameQueue d" "socket c = socket d"
    "connecting c = connecting d" "domain c = domain d"
  shows "fst (processSequenceNameQueue K c) = fst (processSequenceNameQueue K d)"
proof (cases "sequenceNameQueue d")
  case Nil
  with assms(1) show ?thesis by (simp add: processSequenceNameQueue_def)
next
  case (Cons nextId rest)
  have "sendParts (c\<lparr>sequenceNameQueue := rest, currentSequenceNameId := Some nextId\<rparr>)
          (GetSequenceName K) [writeInt nextId]
        = sendParts (d\<lparr>sequenceNameQueue := rest, currentSequenceNameId := Some nextId\<rparr>)
          (GetSequenceName K) [writeInt nextId]"
    using assms by (intro sendParts_cong) simp_all
  with Cons assms(1) show ?thesis
    by (simp add: processSequenceNameQueue_def fetchSequenceName_def Let_def)
qed

section \<open>The properties\<close>

subsection \<open>C1: the checksum of outbound frames\<close>

text \<open>
  C1 (as the code has it). Every frame that \<open>send\<close> writes starts with the four magic
  bytes; the next twelve bytes are the header (the pre-header byte 1, the four domain
  bytes, the two length bytes of the body, five zero bytes); the byte after them, at
  offset 16, is the checksum, and it equals the sum modulo 256 of exactly those twelve
  header bytes. The magic bytes and the checksum byte are not part of the sum, and the
  body (command identifier and payload) starts at offset 17.
\<close>

theorem send_checksum_of_twelve_header_bytes:
  assumes "send c commandId parts = [Write m]"
  shows "take 4 m = PBAU
       \<and> (\<exists>domainBytes. writeInt (domain c) = Inr domainBytes
            \<and> take 12 (drop 4 m)
                = [1] @ domainBytes
                  @ [of_nat ((length m - 17) div 256), of_nat ((length m - 17) mod 256)]
                  @ [0, 0, 0, 0, 0])
       \<and> length (take 12 (drop 4 m)) = 12
       \<and> uint (m ! 16) = sum_list (map uint (take 12 (drop 4 m))) mod 256
       \<and> (\<exists>idBytes. writeShort commandId = Inr idBytes \<and> drop 17 m = idBytes @ concat parts)"
proof -
  let ?n = "2 + length (concat parts)"
  from assms have "message (domain c) commandId parts = Inr m"
    by (auto simp: send_def split: if_splits sum.splits)
  from message_layout [OF this] obtain db ib where
    w: "writeInt (domain c) = Inr db" "writeShort commandId = Inr ib" and
    l: "length db = 4" "length ib = 2" and
    m: "m = PBAU @ ([1] @ db @ [of_nat (?n div 256), of_nat (?n mod 256)] @ [0, 0, 0, 0, 0])
            @ [of_int (checksum ([1] @ db @ [of_nat (?n div 256), of_nat (?n mod 256)]
                                 @ [0, 0, 0, 0, 0]))]
            @ ib @ concat parts"
    by blast
  let ?h = "[1] @ db @ [of_nat (?n div 256), of_nat (?n mod 256)] @ [0, 0, 0, 0, 0 :: byte]"
  have lh: "length ?h = 12" using l by simp
  have m': "m = PBAU @ ?h @ [of_int (checksum ?h)] @ ib @ concat parts" using m by simp
  have len: "length m - 17 = ?n" unfolding m' using lh l length_PBAU by simp
  have t: "take 12 (drop 4 m) = ?h" unfolding m' using lh length_PBAU by simp
  have n: "m ! 16 = of_int (checksum ?h)" unfolding m' using lh length_PBAU
    by (simp add: nth_append)
  have "uint (m ! 16) = checksum ?h mod 256" unfolding n by (rule uint_of_int_byte)
  also have "\<dots> = sum_list (map uint ?h) mod 256" by (simp add: checksum_sum)
  finally have s: "uint (m ! 16) = sum_list (map uint (take 12 (drop 4 m))) mod 256"
    unfolding t .
  have p: "take 4 m = PBAU" unfolding m' using length_PBAU by simp
  have b: "drop 17 m = ib @ concat parts" unfolding m' using lh length_PBAU by simp
  from p t s b w lh show ?thesis unfolding len by simp
qed

text \<open>Witness for C1: the frame of a command without payload, sent for domain 0.\<close>

theorem send_checksum_of_twelve_header_bytes_witness:
  "send connectedClient 72 [] =
     [Write [80, 66, 65, 85, 1, 0, 0, 0, 0, 0, 2, 0, 0, 0, 0, 0, 3, 0, 72]]
   \<and> uint ([80, 66, 65, 85, 1, 0, 0, 0, 0, 0, 2, 0, 0, 0, 0, 0, 3, 0, 72 :: byte] ! 16)
       = sum_list (map uint (take 12 (drop 4
           [80, 66, 65, 85, 1, 0, 0, 0, 0, 0, 2, 0, 0, 0, 0, 0, 3, 0, 72 :: byte]))) mod 256"
  using send_checksum_of_twelve_header_bytes [OF send_sample] send_sample by simp

text \<open>
  C1 as stated fails: the frame written for a command without payload is not the magic
  followed by an eleven-byte header, the checksum of those eleven bytes and a body. The
  header has twelve bytes, so the byte after the first eleven is the last reserved byte
  (zero), while the first eleven header bytes sum to 3.
\<close>

theorem send_header_not_eleven_bytes:
  "\<not> (\<exists>header body. length header = 11
        \<and> send connectedClient 72 []
            = [Write (PBAU @ header @ [of_int (checksum header)] @ body)])"
proof
  assume "\<exists>header body. length header = 11
        \<and> send connectedClient 72 []
            = [Write (PBAU @ header @ [of_int (checksum header)] @ body)]"
  then obtain header body where l: "length header = 11"
    and e: "[80, 66, 65, 85, 1, 0, 0, 0, 0, 0, 2, 0, 0, 0, 0, 0, 3, 0, 72]
            = PBAU @ header @ [of_int (checksum header)] @ body"
    unfolding send_sample by auto
  have t: "take 11 (drop 4 (PBAU @ header @ [of_int (checksum header)] @ body)) = header"
    using l length_PBAU by simp
  have h: "header = [1, 0, 0, 0, 0, 0, 2, 0, 0, 0, 0]"
    using arg_cong [OF e, of "\<lambda>x. take 11 (drop 4 x)"] unfolding t by simp
  have n: "(PBAU @ header @ [of_int (checksum header)] @ body) ! 15
           = (of_int (checksum header) :: byte)"
    using l length_PBAU by (simp add: nth_append)
  have "(0::byte) = of_int (checksum header)"
    using arg_cong [OF e, of "\<lambda>x. x ! 15"] unfolding n by simp
  thus False unfolding h by (simp add: checksum_def)
qed

subsection \<open>C2: an error reply to a status request\<close>

text \<open>
  C2 on the code. In every state in which a status request is outstanding (the pending
  flag is set and the cursor holds the sequence), an error-sentinel reply takes the
  sequence out of the watched set, but the status queue is not advanced: the queue, the
  cursor and the pending flag are as before, the reply causes exactly the events it
  would cause with no status request outstanding (so no status request is written), and
  the next timer tick writes nothing either. The error case calls
  \<open>processStatusRequestQueue\<close> without clearing \<open>statusRequestPending\<close>, which only the
  case of the status reply does.
\<close>

theorem error_reply_stalls_status_queue:
  assumes "statusRequestPending c" and "currentStatusRequestId c = Some i"
    and "accepted (domain c) data" and "isErrorSentinel K data"
  shows "pollSequenceIds (snd (handleData K c data)) = filter (\<lambda>x. x \<noteq> i) (pollSequenceIds c)
       \<and> statusRequestQueue (snd (handleData K c data)) = statusRequestQueue c
       \<and> currentStatusRequestId (snd (handleData K c data)) = Some i
       \<and> statusRequestPending (snd (handleData K c data))
       \<and> fst (handleData K c data)
           = fst (handleData K (c\<lparr>currentStatusRequestId := None\<rparr>) data)
       \<and> fst (statusPollTick K (snd (handleData K c data))) = []"
proof -
  let ?c1 = "c\<lparr>pollSequenceIds := filter (\<lambda>x. x \<noteq> i) (pollSequenceIds c)\<rparr>"
  let ?c0 = "c\<lparr>currentStatusRequestId := None\<rparr>"
  from assms(3,4) have h: "handleData K c data = caseErrorReply K c"
    by (simp add: handleData_def handleData_try_accepted isErrorSentinel_def)
  from assms(3,4) have h0: "handleData K ?c0 data = caseErrorReply K ?c0"
    by (simp add: handleData_def handleData_try_accepted isErrorSentinel_def accepted_def)
  have p: "processStatusRequestQueue K ?c1 = ([], ?c1)"
    using assms(1) by (simp add: processStatusRequestQueue_pending)
  show ?thesis
  proof (cases "currentSequenceNameId c")
    case None
    then have e: "caseErrorReply K c = ([], ?c1)" "caseErrorReply K ?c0 = ([], ?c0)"
      using assms(2) p by (simp_all add: caseErrorReply_def)
    show ?thesis unfolding h h0 e using assms(1,2)
      by (simp add: statusPollTick_def processStatusRequestQueue_pending)
  next
    case (Some j)
    let ?n1 = "?c1\<lparr>pendingSequenceIds := filter (\<lambda>x. x \<noteq> j) (pendingSequenceIds ?c1),
                     currentSequenceNameId := None\<rparr>"
    let ?n0 = "?c0\<lparr>pendingSequenceIds := filter (\<lambda>x. x \<noteq> j) (pendingSequenceIds ?c0),
                     currentSequenceNameId := None\<rparr>"
    have e: "caseErrorReply K c = processSequenceNameQueue K ?n1"
      "caseErrorReply K ?c0 = processSequenceNameQueue K ?n0"
      using assms(2) p Some by (simp_all add: caseErrorReply_def)
    have ev: "fst (processSequenceNameQueue K ?n1) = fst (processSequenceNameQueue K ?n0)"
      by (rule processSequenceNameQueue_events_cong) simp_all
    have pend: "statusRequestPending (snd (processSequenceNameQueue K ?n1))"
      using assms(1) by (simp add: processSequenceNameQueue_status_fields)
    show ?thesis unfolding h h0 e using assms(1,2) ev pend
      by (simp add: processSequenceNameQueue_status_fields statusPollTick_def
            processStatusRequestQueue_pending)
  qed
qed

text \<open>
  Witness for C2: the sequences 5 and 6 are watched, the first tick requests the status
  of 5, and the reply is the error sentinel; 6 stays queued through the later ticks.
\<close>

theorem error_reply_stalls_status_queue_witness:
  "run sampleIds (connectedClient\<lparr>pollSequenceIds := [5, 6]\<rparr>) [Tick]
   = ([Write (frame0 (GetSeqTransportMode sampleIds) [0, 0, 0, 5])],
      connectedClient\<lparr>pollSequenceIds := [5, 6], statusRequestQueue := [6],
        currentStatusRequestId := Some 5, statusRequestPending := True\<rparr>)
   \<and> statusRequestPending
         (connectedClient\<lparr>pollSequenceIds := [5, 6], statusRequestQueue := [6],
            currentStatusRequestId := Some 5, statusRequestPending := True\<rparr>)
   \<and> accepted 0 errorReply \<and> isErrorSentinel sampleIds errorReply
   \<and> handleData sampleIds
         (connectedClient\<lparr>pollSequenceIds := [5, 6], statusRequestQueue := [6],
            currentStatusRequestId := Some 5, statusRequestPending := True\<rparr>) errorReply
       = ([], connectedClient\<lparr>pollSequenceIds := [6], statusRequestQueue := [6],
                currentStatusRequestId := Some 5, statusRequestPending := True\<rparr>)
   \<and> run sampleIds (connectedClient\<lparr>pollSequenceIds := [5, 6]\<rparr>)
         [Tick, Data errorReply, Tick, Tick]
       = ([Write (frame0 (GetSeqTransportMode sampleIds) [0, 0, 0, 5])],
          connectedClient\<lparr>pollSequenceIds := [6], statusRequestQueue := [6],
            currentStatusRequestId := Some 5, statusRequestPending := True\<rparr>)"
proof -
  let ?c = "connectedClient\<lparr>pollSequenceIds := [5, 6], statusRequestQueue := [6],
            currentStatusRequestId := Some 5, statusRequestPending := True\<rparr>"
  have h: "statusRequestPending ?c" "currentStatusRequestId ?c = Some 5"
    "accepted (domain ?c) errorReply" "isErrorSentinel sampleIds errorReply"
    by code_simp+
  have v: "filter (\<lambda>x. x \<noteq> 5) (pollSequenceIds ?c) = [6]" "statusRequestQueue ?c = [6]"
    "domain ?c = 0"
    by code_simp+
  have e: "fst (handleData sampleIds (?c\<lparr>currentStatusRequestId := None\<rparr>) errorReply) = []"
    by code_simp
  have r: "run sampleIds (connectedClient\<lparr>pollSequenceIds := [5, 6]\<rparr>) [Tick]
           = ([Write (frame0 (GetSeqTransportMode sampleIds) [0, 0, 0, 5])], ?c)"
    "run sampleIds (connectedClient\<lparr>pollSequenceIds := [5, 6]\<rparr>)
         [Tick, Data errorReply, Tick, Tick]
       = ([Write (frame0 (GetSeqTransportMode sampleIds) [0, 0, 0, 5])],
          connectedClient\<lparr>pollSequenceIds := [6], statusRequestQueue := [6],
            currentStatusRequestId := Some 5, statusRequestPending := True\<rparr>)"
    "handleData sampleIds ?c errorReply
       = ([], connectedClient\<lparr>pollSequenceIds := [6], statusRequestQueue := [6],
                currentStatusRequestId := Some 5, statusRequestPending := True\<rparr>)"
    by code_simp+
  from error_reply_stalls_status_queue [OF h]
  have "statusRequestQueue (snd (handleData sampleIds ?c errorReply)) = [6]"
    "fst (handleData sampleIds ?c errorReply) = []"
    unfolding v e by blast+
  with r h v show ?thesis by simp
qed

subsection \<open>C3: a discovery run over the IDs 3, 7, 2\<close>

text \<open>
  C3. Take any identifier table under which the two discovery replies reach their cases,
  any client, and buffers for its domain that carry the ID list 3, 7, 2, the names
  "Act 1", "Act 2", "Act 3", and the error sentinel. After \<open>refreshSequences\<close> and the ID
  list, the names are requested for 3, 7, 2 in this order, one after each reply. When the
  three names arrive, the consumer is notified exactly once, after the third name and
  not before, with the pairs (3, "Act 1"), (7, "Act 2"), (2, "Act 3") in the order of
  the ID list. When the reply to the request for 7 is the error sentinel instead, the
  name of 2 is requested next, and once it has arrived the consumer is notified exactly
  once, with the pairs for 3 and 2 only.
\<close>

theorem discovery_of_3_7_2:
  assumes K: "distinctReplies K"
    and ids: "isIdsReply K (domain c) idsData [3, 7, 2]"
    and n1: "isNameReply K (domain c) name1 ''Act 1''"
    and n2: "isNameReply K (domain c) name2 ''Act 2''"
    and n3: "isNameReply K (domain c) name3 ''Act 3''"
    and err: "accepted (domain c) err" "isErrorSentinel K err"
  shows "map (\<lambda>ins. currentSequenceNameId (snd (run K c ins)))
           [[RefreshSequences, Data idsData],
            [RefreshSequences, Data idsData, Data name1],
            [RefreshSequences, Data idsData, Data name1, Data name2]]
         = [Some 3, Some 7, Some 2]
       \<and> notifications (fst (run K c
           [RefreshSequences, Data idsData, Data name1, Data name2])) = []
       \<and> notifications (fst (run K c
           [RefreshSequences, Data idsData, Data name1, Data name2, Data name3]))
         = [[SequenceInfo 3 ''Act 1'', SequenceInfo 7 ''Act 2'', SequenceInfo 2 ''Act 3'']]
       \<and> map (\<lambda>ins. currentSequenceNameId (snd (run K c ins)))
           [[RefreshSequences, Data idsData],
            [RefreshSequences, Data idsData, Data name1],
            [RefreshSequences, Data idsData, Data name1, Data err]]
         = [Some 3, Some 7, Some 2]
       \<and> notifications (fst (run K c
           [RefreshSequences, Data idsData, Data name1, Data err])) = []
       \<and> notifications (fst (run K c
           [RefreshSequences, Data idsData, Data name1, Data err, Data name3]))
         = [[SequenceInfo 3 ''Act 1'', SequenceInfo 2 ''Act 3'']]"
proof -
  let ?r1 = "[RefreshSequences]"
  let ?r2 = "[RefreshSequences, Data idsData]"
  let ?r3 = "[RefreshSequences, Data idsData, Data name1]"
  let ?r4 = "[RefreshSequences, Data idsData, Data name1, Data name2]"
  let ?r5 = "[RefreshSequences, Data idsData, Data name1, Data name2, Data name3]"
  let ?e4 = "[RefreshSequences, Data idsData, Data name1, Data err]"
  let ?e5 = "[RefreshSequences, Data idsData, Data name1, Data err, Data name3]"
  have r1: "domain (snd (run K c ?r1)) = domain c"
    "notifications (fst (run K c ?r1)) = []"
    by (simp_all add: refresh_step)
  have r2: "discovery (snd (run K c ?r2)) = ([3, 7, 2], [], [7, 2], Some 3)"
    "domain (snd (run K c ?r2)) = domain c"
    "notifications (fst (run K c ?r2)) = []"
    using ids_step [OF K, of "snd (run K c ?r1)" idsData "[3, 7, 2]"] ids r1
      run_snoc_Data [of K c ?r1 idsData]
    by simp_all
  have r3: "discovery (snd (run K c ?r3)) = ([3, 7, 2], [(3, ''Act 1'')], [2], Some 7)"
    "domain (snd (run K c ?r3)) = domain c"
    "notifications (fst (run K c ?r3)) = []"
    using name_step [OF K _ r2(1), of name1 "''Act 1''"] n1 r2(2,3)
      run_snoc_Data [of K c ?r2 name1]
    by simp_all
  have r4: "discovery (snd (run K c ?r4))
            = ([3, 7, 2], [(3, ''Act 1''), (7, ''Act 2'')], [], Some 2)"
    "domain (snd (run K c ?r4)) = domain c"
    "notifications (fst (run K c ?r4)) = []"
    using name_step [OF K _ r3(1), of name2 "''Act 2''"] n2 r3(2,3)
      run_snoc_Data [of K c ?r3 name2]
    by simp_all
  have r5: "notifications (fst (run K c ?r5))
            = [[SequenceInfo 3 ''Act 1'', SequenceInfo 7 ''Act 2'', SequenceInfo 2 ''Act 3'']]"
    using name_step [OF K _ r4(1), of name3 "''Act 3''"] n3 r4(2,3)
      run_snoc_Data [of K c ?r4 name3]
    by (simp add: sequenceInfoFor_def)
  have e4: "discovery (snd (run K c ?e4)) = ([3, 2], [(3, ''Act 1'')], [], Some 2)"
    "domain (snd (run K c ?e4)) = domain c"
    "notifications (fst (run K c ?e4)) = []"
    using error_step [OF _ err(2) r3(1)] err(1) r3(2,3)
      run_snoc_Data [of K c ?r3 err]
    by simp_all
  have e5: "notifications (fst (run K c ?e5))
            = [[SequenceInfo 3 ''Act 1'', SequenceInfo 2 ''Act 3'']]"
    using name_step [OF K _ e4(1), of name3 "''Act 3''"] n3 e4(2,3)
      run_snoc_Data [of K c ?e4 name3]
    by (simp add: sequenceInfoFor_def)
  from r2(1) r3(1) r4(1) e4(1) r4(3) r5 e4(3) e5 show ?thesis
    by (simp add: discovery_def)
qed

text \<open>
  Witness for C3: a connected client for domain 0 and the sample replies, with the
  complete sequence of socket writes and handler calls of both runs.
\<close>

theorem discovery_of_3_7_2_witness:
  "distinctReplies sampleIds
   \<and> isIdsReply sampleIds (domain connectedClient) idsReply372 [3, 7, 2]
   \<and> isNameReply sampleIds (domain connectedClient) (nameReply ''Act 1'') ''Act 1''
   \<and> isNameReply sampleIds (domain connectedClient) (nameReply ''Act 2'') ''Act 2''
   \<and> isNameReply sampleIds (domain connectedClient) (nameReply ''Act 3'') ''Act 3''
   \<and> accepted (domain connectedClient) errorReply \<and> isErrorSentinel sampleIds errorReply
   \<and> notifications (fst (run sampleIds connectedClient
         [RefreshSequences, Data idsReply372, Data (nameReply ''Act 1''),
          Data (nameReply ''Act 2''), Data (nameReply ''Act 3'')]))
       = [[SequenceInfo 3 ''Act 1'', SequenceInfo 7 ''Act 2'', SequenceInfo 2 ''Act 3'']]
   \<and> notifications (fst (run sampleIds connectedClient
         [RefreshSequences, Data idsReply372, Data (nameReply ''Act 1''), Data errorReply,
          Data (nameReply ''Act 3'')]))
       = [[SequenceInfo 3 ''Act 1'', SequenceInfo 2 ''Act 3'']]
   \<and> run sampleIds connectedClient
         [RefreshSequences, Data idsReply372, Data (nameReply ''Act 1''),
          Data (nameReply ''Act 2''), Data (nameReply ''Act 3'')]
       = ([Write (frame0 (GetSequenceIds sampleIds) []),
           Write (frame0 (GetSequenceName sampleIds) [0, 0, 0, 3]),
           Write (frame0 (GetSequenceName sampleIds) [0, 0, 0, 7]),
           Write (frame0 (GetSequenceName sampleIds) [0, 0, 0, 2]),
           OnSequencesUpdated
             [SequenceInfo 3 ''Act 1'', SequenceInfo 7 ''Act 2'', SequenceInfo 2 ''Act 3'']],
          connectedClient\<lparr>pendingSequenceIds := [3, 7, 2],
            pendingSequenceNames := [(3, ''Act 1''), (7, ''Act 2''), (2, ''Act 3'')]\<rparr>)
   \<and> run sampleIds connectedClient
         [RefreshSequences, Data idsReply372, Data (nameReply ''Act 1''), Data errorReply,
          Data (nameReply ''Act 3'')]
       = ([Write (frame0 (GetSequenceIds sampleIds) []),
           Write (frame0 (GetSequenceName sampleIds) [0, 0, 0, 3]),
           Write (frame0 (GetSequenceName sampleIds) [0, 0, 0, 7]),
           Write (frame0 (GetSequenceName sampleIds) [0, 0, 0, 2]),
           OnSequencesUpdated [SequenceInfo 3 ''Act 1'', SequenceInfo 2 ''Act 3'']],
          connectedClient\<lparr>pendingSequenceIds := [3, 2],
            pendingSequenceNames := [(3, ''Act 1''), (2, ''Act 3'')]\<rparr>)"
proof -
  have h: "distinctReplies sampleIds"
    "isIdsReply sampleIds (domain connectedClient) idsReply372 [3, 7, 2]"
    "isNameReply sampleIds (domain connectedClient) (nameReply ''Act 1'') ''Act 1''"
    "isNameReply sampleIds (domain connectedClient) (nameReply ''Act 2'') ''Act 2''"
    "isNameReply sampleIds (domain connectedClient) (nameReply ''Act 3'') ''Act 3''"
    "accepted (domain connectedClient) errorReply" "isErrorSentinel sampleIds errorReply"
    by code_simp+
  have t1: "run sampleIds connectedClient
         [RefreshSequences, Data idsReply372, Data (nameReply ''Act 1''),
          Data (nameReply ''Act 2''), Data (nameReply ''Act 3'')]
       = ([Write (frame0 (GetSequenceIds sampleIds) []),
           Write (frame0 (GetSequenceName sampleIds) [0, 0, 0, 3]),
           Write (frame0 (GetSequenceName sampleIds) [0, 0, 0, 7]),
           Write (frame0 (GetSequenceName sampleIds) [0, 0, 0, 2]),
           OnSequencesUpdated
             [SequenceInfo 3 ''Act 1'', SequenceInfo 7 ''Act 2'', SequenceInfo 2 ''Act 3'']],
          connectedClient\<lparr>pendingSequenceIds := [3, 7, 2],
            pendingSequenceNames := [(3, ''Act 1''), (7, ''Act 2''), (2, ''Act 3'')]\<rparr>)"
    by code_simp
  have t2: "run sampleIds connectedClient
         [RefreshSequences, Data idsReply372, Data (nameReply ''Act 1''), Data errorReply,
          Data (nameReply ''Act 3'')]
       = ([Write (frame0 (GetSequenceIds sampleIds) []),
           Write (frame0 (GetSequenceName sampleIds) [0, 0, 0, 3]),
           Write (frame0 (GetSequenceName sampleIds) [0, 0, 0, 7]),
           Write (frame0 (GetSequenceName sampleIds) [0, 0, 0, 2]),
           OnSequencesUpdated [SequenceInfo 3 ''Act 1'', SequenceInfo 2 ''Act 3'']],
          connectedClient\<lparr>pendingSequenceIds := [3, 2],
            pendingSequenceNames := [(3, ''Act 1''), (2, ''Act 3'')]\<rparr>)"
    by code_simp
  from discovery_of_3_7_2 [OF h]
  have "notifications (fst (run sampleIds connectedClient
         [RefreshSequences, Data idsReply372, Data (nameReply ''Act 1''),
          Data (nameReply ''Act 2''), Data (nameReply ''Act 3'')]))
       = [[SequenceInfo 3 ''Act 1'', SequenceInfo 7 ''Act 2'', SequenceInfo 2 ''Act 3'']]"
    and "notifications (fst (run sampleIds connectedClient
         [RefreshSequences, Data idsReply372, Data (nameReply ''Act 1''), Data errorReply,
          Data (nameReply ''Act 3'')]))
       = [[SequenceInfo 3 ''Act 1'', SequenceInfo 2 ''Act 3'']]"
    by blast+
  with h t1 t2 show ?thesis by blast
qed

subsection \<open>C4: outstanding requests\<close>

text \<open>
  C4 on the code. On an open connection with a name request outstanding (the cursor is
  set), a buffer that carries a non-empty ID list makes the handler write a name request
  for the first listed ID at once: the second name request goes out while the first is
  unanswered. \<open>processSequenceNameQueue\<close> has no guard of the kind that
  \<open>processStatusRequestQueue\<close> has in \<open>statusRequestPending\<close>.
\<close>

theorem two_name_requests_outstanding:
  assumes "distinctReplies K" and "isIdsReply K (domain c) data (i # ids)"
    and "currentSequenceNameId c = Some j"
    and "socket c" and "\<not> connecting c"
    and "writeInt i = Inr idBytes"
    and "message (domain c) (GetSequenceName K) [idBytes] = Inr m"
  shows "handleData K c data
         = ([Write m],
            c\<lparr>pendingSequenceIds := i # ids, sequenceNameQueue := ids,
              pendingSequenceNames := [], currentSequenceNameId := Some i\<rparr>)"
proof -
  from assms(2) have l: "length data = 27 + 4 * length (i # ids)"
    and n: "int32BE data 19 = int (length (i # ids))"
    and m: "map (\<lambda>k. int32LE data (27 + 4 * k)) [0..<length (i # ids)] = i # ids"
    by (simp_all only: isIdsReply_def)
  have "min (nat (int32BE data 19)) ((length data - 27) div 4) = length (i # ids)"
    unfolding l n by simp
  then have e: "i # ids = map (\<lambda>k. int32LE data (27 + 4 * k))
                 [0..<min (nat (int32BE data 19)) ((length data - 27) div 4)]"
    using m by simp
  have "handleData K c data
         = processSequenceNameQueue K
             (c\<lparr>pendingSequenceIds := i # ids, sequenceNameQueue := i # ids,
                pendingSequenceNames := []\<rparr>)"
    using assms(1,2) l by (intro handleData_GetSequenceIds [OF _ _ _ _ _ e])
      (simp_all add: isIdsReply_def distinctReplies_def)
  also have "\<dots> = ([Write m],
            c\<lparr>pendingSequenceIds := i # ids, sequenceNameQueue := ids,
              pendingSequenceNames := [], currentSequenceNameId := Some i\<rparr>)"
    using assms(4-7)
    by (simp add: processSequenceNameQueue_def fetchSequenceName_def sendParts_def send_def Let_def)
  finally show ?thesis .
qed

text \<open>
  Witness for C4: the consumer calls \<open>refreshSequences\<close> twice before the first reply
  arrives, and the peer answers both requests with the ID list 3, 7, 2. The first list
  makes the client request the name of 3; the second list makes it request that name
  again, with no name reply and no error reply in between. When the peer then answers
  the four name requests in the order it received them ("Act 1", "Act 1", "Act 2",
  "Act 3"), the consumer is told that 7 is named "Act 1" and 2 is named "Act 2".
\<close>

theorem two_name_requests_outstanding_witness:
  "run sampleIds connectedClient [RefreshSequences, RefreshSequences, Data idsReply372]
   = ([Write (frame0 (GetSequenceIds sampleIds) []),
       Write (frame0 (GetSequenceIds sampleIds) []),
       Write (frame0 (GetSequenceName sampleIds) [0, 0, 0, 3])],
      connectedClient\<lparr>pendingSequenceIds := [3, 7, 2], sequenceNameQueue := [7, 2],
        currentSequenceNameId := Some 3\<rparr>)
   \<and> distinctReplies sampleIds
   \<and> isIdsReply sampleIds 0 idsReply372 [3, 7, 2]
   \<and> writeInt 3 = Inr [0, 0, 0, 3]
   \<and> message 0 (GetSequenceName sampleIds) [[0, 0, 0, 3]]
       = Inr (frame0 (GetSequenceName sampleIds) [0, 0, 0, 3])
   \<and> handleData sampleIds
         (connectedClient\<lparr>pendingSequenceIds := [3, 7, 2], sequenceNameQueue := [7, 2],
            currentSequenceNameId := Some 3\<rparr>) idsReply372
       = ([Write (frame0 (GetSequenceName sampleIds) [0, 0, 0, 3])],
          connectedClient\<lparr>pendingSequenceIds := [3, 7, 2], sequenceNameQueue := [7, 2],
            currentSequenceNameId := Some 3\<rparr>)
   \<and> run sampleIds connectedClient
         [RefreshSequences, RefreshSequences, Data idsReply372, Data idsReply372]
       = ([Write (frame0 (GetSequenceIds sampleIds) []),
           Write (frame0 (GetSequenceIds sampleIds) []),
           Write (frame0 (GetSequenceName sampleIds) [0, 0, 0, 3]),
           Write (frame0 (GetSequenceName sampleIds) [0, 0, 0, 3])],
          connectedClient\<lparr>pendingSequenceIds := [3, 7, 2], sequenceNameQueue := [7, 2],
            currentSequenceNameId := Some 3\<rparr>)
   \<and> notifications (fst (run sampleIds connectedClient
         [RefreshSequences, RefreshSequences, Data idsReply372, Data idsReply372,
          Data (nameReply ''Act 1''), Data (nameReply ''Act 1''), Data (nameReply ''Act 2''),
          Data (nameReply ''Act 3'')]))
       = [[SequenceInfo 3 ''Act 1'', SequenceInfo 7 ''Act 1'', SequenceInfo 2 ''Act 2'']]"
proof -
  let ?c = "connectedClient\<lparr>pendingSequenceIds := [3, 7, 2], sequenceNameQueue := [7, 2],
            currentSequenceNameId := Some 3\<rparr>"
  have h: "distinctReplies sampleIds" "isIdsReply sampleIds (domain ?c) idsReply372 [3, 7, 2]"
    "currentSequenceNameId ?c = Some 3" "socket ?c" "\<not> connecting ?c"
    "writeInt 3 = Inr [0, 0, 0, 3]"
    "message (domain ?c) (GetSequenceName sampleIds) [[0, 0, 0, 3]]
       = Inr (frame0 (GetSequenceName sampleIds) [0, 0, 0, 3])"
    by code_simp+
  have d: "domain ?c = 0" by code_simp
  have s: "?c\<lparr>pendingSequenceIds := [3, 7, 2], sequenceNameQueue := [7, 2],
              pendingSequenceNames := [], currentSequenceNameId := Some 3\<rparr> = ?c"
    by code_simp
  have r: "run sampleIds connectedClient [RefreshSequences, RefreshSequences, Data idsReply372]
   = ([Write (frame0 (GetSequenceIds sampleIds) []),
       Write (frame0 (GetSequenceIds sampleIds) []),
       Write (frame0 (GetSequenceName sampleIds) [0, 0, 0, 3])], ?c)"
    "run sampleIds connectedClient
         [RefreshSequences, RefreshSequences, Data idsReply372, Data idsReply372]
       = ([Write (frame0 (GetSequenceIds sampleIds) []),
           Write (frame0 (GetSequenceIds sampleIds) []),
           Write (frame0 (GetSequenceName sampleIds) [0, 0, 0, 3]),
           Write (frame0 (GetSequenceName sampleIds) [0, 0, 0, 3])], ?c)"
    by code_simp+
  have n: "notifications (fst (run sampleIds connectedClient
         [RefreshSequences, RefreshSequences, Data idsReply372, Data idsReply372,
          Data (nameReply ''Act 1''), Data (nameReply ''Act 1''), Data (nameReply ''Act 2''),
          Data (nameReply ''Act 3'')]))
       = [[SequenceInfo 3 ''Act 1'', SequenceInfo 7 ''Act 1'', SequenceInfo 2 ''Act 2'']]"
    by code_simp
  from two_name_requests_outstanding [OF h]
  have "handleData sampleIds ?c idsReply372
       = ([Write (frame0 (GetSequenceName sampleIds) [0, 0, 0, 3])], ?c)"
    unfolding s .
  with r h n show ?thesis unfolding d by simp
qed

subsection \<open>C5: starting a discovery run\<close>

text \<open>
  C5 (as the code has it). \<open>refreshSequences\<close> empties the accumulated ID list, the
  accumulated names and the name queue, leaves the cursor of the outstanding name request
  (and every other field) as it was, and then sends the "get sequence IDs" command: on
  an open socket with no connect in progress it writes the frame of that command with an
  empty payload.
\<close>

theorem refreshSequences_clears_lists_and_sends:
  "snd (refreshSequences K c)
     = c\<lparr>pendingSequenceIds := [], pendingSequenceNames := [], sequenceNameQueue := []\<rparr>
   \<and> currentSequenceNameId (snd (refreshSequences K c)) = currentSequenceNameId c
   \<and> (socket c \<and> \<not> connecting c \<and> writeInt (domain c) = Inr domainBytes
        \<and> writeShort (GetSequenceIds K) = Inr idBytes \<longrightarrow>
      fst (refreshSequences K c)
        = [Write (PBAU @ [1] @ domainBytes @ [0, 2, 0, 0, 0, 0, 0]
                  @ [of_int (checksum ([1] @ domainBytes @ [0, 2, 0, 0, 0, 0, 0]))] @ idBytes)])"
  by (auto simp: refreshSequences_def sendParts_def send_def message_def buildHeader_def Let_def
           writeShort_def split: if_splits)

text \<open>Witness for C5: a refresh while the name of sequence 2 is being requested.\<close>

theorem refreshSequences_clears_lists_and_sends_witness:
  "socket lastNamePending \<and> \<not> connecting lastNamePending
   \<and> writeInt (domain lastNamePending) = Inr [0, 0, 0, 0]
   \<and> writeShort (GetSequenceIds sampleIds) = Inr [0, 156]
   \<and> refreshSequences sampleIds lastNamePending
       = ([Write [80, 66, 65, 85, 1, 0, 0, 0, 0, 0, 2, 0, 0, 0, 0, 0, 3, 0, 156]],
          connectedClient\<lparr>currentSequenceNameId := Some 2\<rparr>)"
proof -
  have h: "socket lastNamePending \<and> \<not> connecting lastNamePending
   \<and> writeInt (domain lastNamePending) = Inr [0, 0, 0, 0]
   \<and> writeShort (GetSequenceIds sampleIds) = Inr [0, 156]"
    by code_simp
  have v: "PBAU @ [1] @ [0, 0, 0, 0] @ [0, 2, 0, 0, 0, 0, 0]
                  @ [of_int (checksum ([1] @ [0, 0, 0, 0] @ [0, 2, 0, 0, 0, 0, 0]))] @ [0, 156]
           = [80, 66, 65, 85, 1, 0, 0, 0, 0, 0, 2, 0, 0, 0, 0, 0, 3, 0, 156]"
    by code_simp
  have s: "lastNamePending\<lparr>pendingSequenceIds := [], pendingSequenceNames := [],
                             sequenceNameQueue := []\<rparr>
           = connectedClient\<lparr>currentSequenceNameId := Some 2\<rparr>"
    by code_simp
  from refreshSequences_clears_lists_and_sends
         [where K = sampleIds and c = lastNamePending and domainBytes = "[0, 0, 0, 0]"
            and idBytes = "[0, 156]"] h
  have "snd (refreshSequences sampleIds lastNamePending)
          = connectedClient\<lparr>currentSequenceNameId := Some 2\<rparr>"
    and "fst (refreshSequences sampleIds lastNamePending)
          = [Write [80, 66, 65, 85, 1, 0, 0, 0, 0, 0, 2, 0, 0, 0, 0, 0, 3, 0, 156]]"
    unfolding v s by blast+
  then have "refreshSequences sampleIds lastNamePending
       = ([Write [80, 66, 65, 85, 1, 0, 0, 0, 0, 0, 2, 0, 0, 0, 0, 0, 3, 0, 156]],
          connectedClient\<lparr>currentSequenceNameId := Some 2\<rparr>)"
    by (simp add: prod_eq_iff)
  with h show ?thesis by blast
qed

text \<open>
  C5 as stated fails: in the state reached when the names of 3 and 7 have arrived and the
  name of 2 is being requested, \<open>refreshSequences\<close> leaves the cursor at 2.
\<close>

theorem refreshSequences_keeps_name_cursor:
  "snd (run sampleIds connectedClient
          [RefreshSequences, Data idsReply372, Data (nameReply ''Act 1''),
           Data (nameReply ''Act 2'')]) = lastNamePending
   \<and> currentSequenceNameId lastNamePending = Some 2
   \<and> currentSequenceNameId (snd (refreshSequences sampleIds lastNamePending)) = Some 2"
  by code_simp

subsection \<open>C6: decoding the ID list\<close>

text \<open>
  C6. For a buffer that passes the guards, carries the identifier of "get sequence IDs"
  and holds the count field, the handler reads the count as a big-endian 32-bit integer
  at offset 19 (the payload start), skips the four bytes at 23..26, and reads
  little-endian 32-bit IDs from offset 27 on, \<open>count\<close> of them or as many as fit into
  the buffer. These IDs, in this order, become both the accumulated ID list and the name
  queue, the accumulated names are cleared, and the queue is then processed: its head is
  taken off and requested at once.
\<close>

theorem getSequenceIds_reply_decoded:
  assumes "accepted (domain c) data" and "23 \<le> length data"
    and "int16BE data 17 = GetSequenceIds K"
    and "GetSequenceIds K \<noteq> GetSeqTransportMode K"
    and "GetSequenceIds K \<noteq> GetRemainingTimeUntilNextCue K"
  shows "let count = int32BE data 19;
             n = min (nat count) ((length data - 27) div 4);
             ids = map (\<lambda>k. int32LE data (27 + 4 * k)) [0..<n];
             c' = snd (handleData K c data)
         in handleData K c data
              = processSequenceNameQueue K
                  (c\<lparr>pendingSequenceIds := ids, sequenceNameQueue := ids,
                     pendingSequenceNames := []\<rparr>)
          \<and> pendingSequenceIds c' = ids
          \<and> pendingSequenceNames c' = []
          \<and> sequenceNameQueue c' = tl ids
          \<and> currentSequenceNameId c'
              = (if ids = [] then currentSequenceNameId c else Some (hd ids))"
proof -
  define ids where "ids = map (\<lambda>k. int32LE data (27 + 4 * k))
                [0..<min (nat (int32BE data 19)) ((length data - 27) div 4)]"
  let ?ids = ids
  let ?c1 = "c\<lparr>pendingSequenceIds := ?ids, sequenceNameQueue := ?ids, pendingSequenceNames := []\<rparr>"
  have r: "readIds data (int32BE data 19) 0 27 [] = ?ids"
    by (simp add: readIds_eq ids_def)
  have "handleData_try K c data = caseGetSequenceIds K c data"
    using assms by (simp add: handleData_try_def accepted_def readInt32BE_def readInt16BE_def)
  also have "\<dots> = Inr (processSequenceNameQueue K ?c1)"
    using assms(2) by (simp add: caseGetSequenceIds_def readInt32BE_def r Let_def)
  finally have h: "handleData K c data = processSequenceNameQueue K ?c1"
    by (simp add: handleData_def)
  have "pendingSequenceIds (snd (processSequenceNameQueue K ?c1)) = ?ids"
       "pendingSequenceNames (snd (processSequenceNameQueue K ?c1)) = []"
       "sequenceNameQueue (snd (processSequenceNameQueue K ?c1)) = tl ?ids"
       "currentSequenceNameId (snd (processSequenceNameQueue K ?c1))
          = (if ?ids = [] then currentSequenceNameId c else Some (hd ?ids))"
    by (simp_all add: processSequenceNameQueue_fields)
  with h show ?thesis unfolding Let_def ids_def [symmetric] by simp
qed

text \<open>Witness for C6: the reply that lists the IDs 3, 7, 2.\<close>

theorem getSequenceIds_reply_decoded_witness:
  "accepted (domain connectedClient) idsReply372 \<and> 23 \<le> length idsReply372
   \<and> int16BE idsReply372 17 = GetSequenceIds sampleIds
   \<and> GetSequenceIds sampleIds \<noteq> GetSeqTransportMode sampleIds
   \<and> GetSequenceIds sampleIds \<noteq> GetRemainingTimeUntilNextCue sampleIds
   \<and> pendingSequenceIds (snd (handleData sampleIds connectedClient idsReply372)) = [3, 7, 2]
   \<and> pendingSequenceNames (snd (handleData sampleIds connectedClient idsReply372)) = []
   \<and> sequenceNameQueue (snd (handleData sampleIds connectedClient idsReply372)) = [7, 2]
   \<and> currentSequenceNameId (snd (handleData sampleIds connectedClient idsReply372)) = Some 3"
proof -
  have h: "accepted (domain connectedClient) idsReply372" "23 \<le> length idsReply372"
    "int16BE idsReply372 17 = GetSequenceIds sampleIds"
    "GetSequenceIds sampleIds \<noteq> GetSeqTransportMode sampleIds"
    "GetSequenceIds sampleIds \<noteq> GetRemainingTimeUntilNextCue sampleIds"
    by code_simp+
  have v: "map (\<lambda>k. int32LE idsReply372 (27 + 4 * k))
             [0..<min (nat (int32BE idsReply372 19)) ((length idsReply372 - 27) div 4)] = [3, 7, 2]"
    by code_simp
  note t = getSequenceIds_reply_decoded [OF h, unfolded Let_def v]
  from t have "pendingSequenceIds (snd (handleData sampleIds connectedClient idsReply372)) = [3, 7, 2]"
    and "pendingSequenceNames (snd (handleData sampleIds connectedClient idsReply372)) = []"
    and "sequenceNameQueue (snd (handleData sampleIds connectedClient idsReply372)) = tl [3, 7, 2]"
    and "currentSequenceNameId (snd (handleData sampleIds connectedClient idsReply372))
         = (if [3, 7, 2 :: int] = [] then currentSequenceNameId connectedClient
            else Some (hd [3, 7, 2]))"
    by blast+
  with h show ?thesis by simp
qed

subsection \<open>C7: buffers that the guards reject\<close>

text \<open>
  C7 on the code. The first four bytes of these buffers are \<open>D0 42 41 55\<close>, not the magic
  \<open>50 42 41 55\<close>, yet both handlers accept them and call a consumer handler: the guard
  compares the text decoded as \<open>'ascii'\<close>, and that decoding drops the highest bit of
  every byte, so the guard lets through what it is there to reject.
\<close>

theorem handleData_accepts_high_bit_magic:
  "take 4 (0xD0 # tl (statusReply 1)) \<noteq> PBAU
   \<and> handleData sampleIds connectedClient (0xD0 # tl (statusReply 1))
       = ([OnTransport Play], connectedClient)
   \<and> take 4 (0xD0 # tl timeReply) \<noteq> PBAU
   \<and> seq_handleData sampleIds sampleSequenceConnection (0xD0 # tl timeReply)
       = ([OnTime 1 2 3 4], sampleSequenceConnection)"
  by code_simp

text \<open>
  What the guards do reject: a buffer shorter than 19 bytes, or whose first four bytes
  read as 7-bit ASCII (the highest bit of each byte ignored, as the \<open>'ascii'\<close> decoding
  does) are not \<open>PBAU\<close>, or whose big-endian domain field at offset 5 differs from the
  configured domain, makes the data handler of either connection class call no handler,
  leave the connection state as it is, and raise nothing.
\<close>

theorem handleData_rejects_silently:
  "(length data < 19 \<or> toString_ascii data 0 4 \<noteq> PBAU \<or> int32BE data 5 \<noteq> domain c
      \<longrightarrow> handleData K c data = ([], c))
   \<and> (length data < 19 \<or> toString_ascii data 0 4 \<noteq> PBAU \<or> int32BE data 5 \<noteq> sc_domain sc
      \<longrightarrow> seq_handleData K sc data = ([], sc))"
  by (auto simp: handleData_def handleData_try_def seq_handleData_def seq_handleData_try_def
        readInt32BE_def)

text \<open>
  Instances of the three guards: a two-byte buffer, a status reply whose first byte is
  \<open>Q\<close>, and replies for domain 0 delivered to connections configured for domain 7.
\<close>

theorem handleData_rejects_silently_witness:
  "length [0x50, 0x42 :: byte] < 19
   \<and> handleData sampleIds connectedClient [0x50, 0x42] = ([], connectedClient)
   \<and> seq_handleData sampleIds sampleSequenceConnection [0x50, 0x42]
       = ([], sampleSequenceConnection)
   \<and> toString_ascii (0x51 # tl (statusReply 1)) 0 4 \<noteq> PBAU
   \<and> handleData sampleIds connectedClient (0x51 # tl (statusReply 1)) = ([], connectedClient)
   \<and> seq_handleData sampleIds sampleSequenceConnection (0x51 # tl (statusReply 1))
       = ([], sampleSequenceConnection)
   \<and> int32BE (statusReply 1) 5 \<noteq> domain (connectedClient\<lparr>domain := 7\<rparr>)
   \<and> handleData sampleIds (connectedClient\<lparr>domain := 7\<rparr>) (statusReply 1)
       = ([], connectedClient\<lparr>domain := 7\<rparr>)
   \<and> int32BE timeReply 5 \<noteq> sc_domain (sampleSequenceConnection\<lparr>sc_domain := 7\<rparr>)
   \<and> seq_handleData sampleIds (sampleSequenceConnection\<lparr>sc_domain := 7\<rparr>) timeReply
       = ([], sampleSequenceConnection\<lparr>sc_domain := 7\<rparr>)"
proof -
  have h: "length [0x50, 0x42 :: byte] < 19"
    "toString_ascii (0x51 # tl (statusReply 1)) 0 4 \<noteq> PBAU"
    "int32BE (statusReply 1) 5 \<noteq> domain (connectedClient\<lparr>domain := 7\<rparr>)"
    "int32BE timeReply 5 \<noteq> sc_domain (sampleSequenceConnection\<lparr>sc_domain := 7\<rparr>)"
    by code_simp+
  from h(1) handleData_rejects_silently
         [where data = "[0x50, 0x42]" and K = sampleIds and c = connectedClient
            and sc = sampleSequenceConnection]
  have "handleData sampleIds connectedClient [0x50, 0x42] = ([], connectedClient)"
    "seq_handleData sampleIds sampleSequenceConnection [0x50, 0x42]
       = ([], sampleSequenceConnection)"
    by blast+
  moreover from h(2) handleData_rejects_silently
         [where data = "0x51 # tl (statusReply 1)" and K = sampleIds and c = connectedClient
            and sc = sampleSequenceConnection]
  have "handleData sampleIds connectedClient (0x51 # tl (statusReply 1)) = ([], connectedClient)"
    "seq_handleData sampleIds sampleSequenceConnection (0x51 # tl (statusReply 1))
       = ([], sampleSequenceConnection)"
    by blast+
  moreover from h(3) handleData_rejects_silently
         [where data = "statusReply 1" and K = sampleIds and c = "connectedClient\<lparr>domain := 7\<rparr>"]
  have "handleData sampleIds (connectedClient\<lparr>domain := 7\<rparr>) (statusReply 1)
       = ([], connectedClient\<lparr>domain := 7\<rparr>)"
    by blast
  moreover from h(4) handleData_rejects_silently
         [where data = timeReply and K = sampleIds
            and sc = "sampleSequenceConnection\<lparr>sc_domain := 7\<rparr>"]
  have "seq_handleData sampleIds (sampleSequenceConnection\<lparr>sc_domain := 7\<rparr>) timeReply
       = ([], sampleSequenceConnection\<lparr>sc_domain := 7\<rparr>)"
    by blast
  ultimately show ?thesis using h by blast
qed

subsection \<open>C8: sending while not connected\<close>

text \<open>
  C8. While the socket is absent or a connect is in progress, \<open>send\<close> returns without
  error, writes nothing and changes nothing, whatever the command and the payload. So
  does every command operation whose payload can be built (integer arguments within 32
  bits, an address of at most 65535 characters): it yields no event at all and leaves
  the state of the connection as it was.
\<close>

theorem send_is_noop_when_not_connected:
  assumes "\<not> socket c \<or> connecting c"
  shows "send c commandId parts = []
    \<and> (inInt32 a \<and> inInt32 b \<and> int (length ip) \<le> 65535 \<longrightarrow>
         setTransport K c a b = ([], c) \<and> selectSequence K c a = ([], c)
       \<and> gotoCue K c a b = ([], c) \<and> nextOrLastCue K c a flag = ([], c)
       \<and> ignoreNextCue K c a flag = ([], c) \<and> applyView K c a = ([], c)
       \<and> saveProject K c = ([], c) \<and> toggleFullscreen K c a = ([], c)
       \<and> setSiteIp K c a ip = ([], c) \<and> clearAllActive K c = ([], c)
       \<and> storeActive K c a = ([], c) \<and> storeActiveToBeginning K c a = ([], c)
       \<and> resetAll K c = ([], c) \<and> setSequenceSmpteMode K c a b = ([], c))"
proof -
  have s: "send c commandId parts = []" for commandId parts
    using assms by (rule send_guard)
  have ops: "setTransport K c a b = ([], c) \<and> selectSequence K c a = ([], c)
       \<and> gotoCue K c a b = ([], c) \<and> nextOrLastCue K c a flag = ([], c)
       \<and> ignoreNextCue K c a flag = ([], c) \<and> applyView K c a = ([], c)
       \<and> saveProject K c = ([], c) \<and> toggleFullscreen K c a = ([], c)
       \<and> setSiteIp K c a ip = ([], c) \<and> clearAllActive K c = ([], c)
       \<and> storeActive K c a = ([], c) \<and> storeActiveToBeginning K c a = ([], c)
       \<and> resetAll K c = ([], c) \<and> setSequenceSmpteMode K c a b = ([], c)"
    if r: "inInt32 a" "inInt32 b" "int (length ip) \<le> 65535"
  proof -
    have i: "evalParts [writeInt a] = Inr [[of_int (a div 16777216), of_int (a div 65536),
                                            of_int (a div 256), of_int a]]"
      "evalParts [writeInt a, writeInt b]
         = Inr [[of_int (a div 16777216), of_int (a div 65536), of_int (a div 256), of_int a],
                [of_int (b div 16777216), of_int (b div 65536), of_int (b div 256), of_int b]]"
      "evalParts [writeInt b, writeInt a]
         = Inr [[of_int (b div 16777216), of_int (b div 65536), of_int (b div 256), of_int b],
                [of_int (a div 16777216), of_int (a div 65536), of_int (a div 256), of_int a]]"
      "evalParts [writeInt a, Inr (boolByte flag)]
         = Inr [[of_int (a div 16777216), of_int (a div 65536), of_int (a div 256), of_int a],
                boolByte flag]"
      "evalParts [writeInt a, writeShort (int (length (asciiBytes ip))), Inr (asciiBytes ip)]
         = Inr [[of_int (a div 16777216), of_int (a div 65536), of_int (a div 256), of_int a],
                [of_int (int (length ip) div 256), of_int (int (length ip))], asciiBytes ip]"
      "evalParts [] = Inr []"
      using r by (simp_all add: writeInt_Inr writeShort_Inr asciiBytes_def)
    have "setTransport K c a b = ([], c)"
      by (simp add: setTransport_def sendParts_def i s)
    moreover have "selectSequence K c a = ([], c)"
      by (simp add: selectSequence_def sendParts_def i s)
    moreover have "gotoCue K c a b = ([], c)"
      by (simp add: gotoCue_def sendParts_def i s)
    moreover have "nextOrLastCue K c a flag = ([], c)"
      by (simp add: nextOrLastCue_def sendParts_def i s)
    moreover have "ignoreNextCue K c a flag = ([], c)"
      by (simp add: ignoreNextCue_def sendParts_def i s)
    moreover have "applyView K c a = ([], c)"
      by (simp add: applyView_def sendParts_def i s)
    moreover have "saveProject K c = ([], c)"
      by (simp add: saveProject_def sendParts_def i s)
    moreover have "toggleFullscreen K c a = ([], c)"
      by (simp add: toggleFullscreen_def sendParts_def i s)
    moreover have "setSiteIp K c a ip = ([], c)"
      by (simp add: setSiteIp_def sendParts_def i s Let_def)
    moreover have "clearAllActive K c = ([], c)"
      by (simp add: clearAllActive_def sendParts_def i s)
    moreover have "storeActive K c a = ([], c)"
      by (simp add: storeActive_def sendParts_def i s)
    moreover have "storeActiveToBeginning K c a = ([], c)"
      by (simp add: storeActiveToBeginning_def sendParts_def i s)
    moreover have "resetAll K c = ([], c)"
      by (simp add: resetAll_def sendParts_def i s)
    moreover have "setSequenceSmpteMode K c a b = ([], c)"
      by (simp add: setSequenceSmpteMode_def sendParts_def i s)
    ultimately show ?thesis by (intro conjI)
  qed
  have "inInt32 a \<and> inInt32 b \<and> int (length ip) \<le> 65535 \<longrightarrow>
         setTransport K c a b = ([], c) \<and> selectSequence K c a = ([], c)
       \<and> gotoCue K c a b = ([], c) \<and> nextOrLastCue K c a flag = ([], c)
       \<and> ignoreNextCue K c a flag = ([], c) \<and> applyView K c a = ([], c)
       \<and> saveProject K c = ([], c) \<and> toggleFullscreen K c a = ([], c)
       \<and> setSiteIp K c a ip = ([], c) \<and> clearAllActive K c = ([], c)
       \<and> storeActive K c a = ([], c) \<and> storeActiveToBeginning K c a = ([], c)
       \<and> resetAll K c = ([], c) \<and> setSequenceSmpteMode K c a b = ([], c)"
  proof
    assume "inInt32 a \<and> inInt32 b \<and> int (length ip) \<le> 65535"
    then have "inInt32 a" "inInt32 b" "int (length ip) \<le> 65535" by simp_all
    then show "setTransport K c a b = ([], c) \<and> selectSequence K c a = ([], c)
       \<and> gotoCue K c a b = ([], c) \<and> nextOrLastCue K c a flag = ([], c)
       \<and> ignoreNextCue K c a flag = ([], c) \<and> applyView K c a = ([], c)
       \<and> saveProject K c = ([], c) \<and> toggleFullscreen K c a = ([], c)
       \<and> setSiteIp K c a ip = ([], c) \<and> clearAllActive K c = ([], c)
       \<and> storeActive K c a = ([], c) \<and> storeActiveToBeginning K c a = ([], c)
       \<and> resetAll K c = ([], c) \<and> setSequenceSmpteMode K c a b = ([], c)"
      by (rule ops)
  qed
  with s [of commandId parts] show ?thesis by (rule conjI)
qed

text \<open>
  Witness for C8: a client whose socket is absent and a client in the middle of a
  connect.
\<close>

theorem send_is_noop_when_not_connected_witness:
  "\<not> socket (connectedClient\<lparr>socket := False\<rparr>)
   \<and> connecting (connectedClient\<lparr>connecting := True\<rparr>)
   \<and> inInt32 3 \<and> inInt32 1 \<and> int (length ''10.0.0.1'') \<le> 65535
   \<and> send (connectedClient\<lparr>socket := False\<rparr>) 72 [[0, 0, 0, 3]] = []
   \<and> setTransport sampleIds (connectedClient\<lparr>socket := False\<rparr>) 3 1
       = ([], connectedClient\<lparr>socket := False\<rparr>)
   \<and> setSiteIp sampleIds (connectedClient\<lparr>socket := False\<rparr>) 3 ''10.0.0.1''
       = ([], connectedClient\<lparr>socket := False\<rparr>)
   \<and> send (connectedClient\<lparr>connecting := True\<rparr>) 72 [[0, 0, 0, 3]] = []
   \<and> gotoCue sampleIds (connectedClient\<lparr>connecting := True\<rparr>) 3 1
       = ([], connectedClient\<lparr>connecting := True\<rparr>)
   \<and> saveProject sampleIds (connectedClient\<lparr>connecting := True\<rparr>)
       = ([], connectedClient\<lparr>connecting := True\<rparr>)"
proof -
  have h1: "\<not> socket (connectedClient\<lparr>socket := False\<rparr>)
            \<or> connecting (connectedClient\<lparr>socket := False\<rparr>)"
    and h2: "\<not> socket (connectedClient\<lparr>connecting := True\<rparr>)
            \<or> connecting (connectedClient\<lparr>connecting := True\<rparr>)"
    by code_simp+
  have h3: "inInt32 3 \<and> inInt32 1 \<and> int (length ''10.0.0.1'') \<le> 65535"
    by (simp add: inInt32_def)
  from send_is_noop_when_not_connected
         [OF h1, where commandId = 72 and parts = "[[0, 0, 0, 3]]" and a = 3 and b = 1
            and ip = "''10.0.0.1''" and K = sampleIds] h3
  have "send (connectedClient\<lparr>socket := False\<rparr>) 72 [[0, 0, 0, 3]] = []"
    "setTransport sampleIds (connectedClient\<lparr>socket := False\<rparr>) 3 1
       = ([], connectedClient\<lparr>socket := False\<rparr>)"
    "setSiteIp sampleIds (connectedClient\<lparr>socket := False\<rparr>) 3 ''10.0.0.1''
       = ([], connectedClient\<lparr>socket := False\<rparr>)"
    by simp_all
  moreover from send_is_noop_when_not_connected
         [OF h2, where commandId = 72 and parts = "[[0, 0, 0, 3]]" and a = 3 and b = 1
            and ip = "''10.0.0.1''" and K = sampleIds] h3
  have "send (connectedClient\<lparr>connecting := True\<rparr>) 72 [[0, 0, 0, 3]] = []"
    "gotoCue sampleIds (connectedClient\<lparr>connecting := True\<rparr>) 3 1
       = ([], connectedClient\<lparr>connecting := True\<rparr>)"
    "saveProject sampleIds (connectedClient\<lparr>connecting := True\<rparr>)
       = ([], connectedClient\<lparr>connecting := True\<rparr>)"
    by simp_all
  moreover have "\<not> socket (connectedClient\<lparr>socket := False\<rparr>)"
    "connecting (connectedClient\<lparr>connecting := True\<rparr>)"
    by code_simp+
  ultimately show ?thesis using h3 by simp
qed

subsection \<open>C9: completion of a discovery run\<close>

text \<open>
  C9. The error case of the handler never calls \<open>onSequencesUpdated\<close>; a call of the
  data handler that does call it is the handling of a name reply while a name request is
  outstanding. Consequently, when the error sentinel arrives as the reply to the last
  queued name request (the cursor is set and the name queue is empty), the handler takes
  the ID out of the expected list, keeps the recorded names, and notifies nobody: not in
  this call and not in any later timer tick, \<open>refreshSequences\<close> call or inbound buffer,
  until a buffer with the ID-list identifier begins another discovery run. This holds
  whatever the recorded-name count and the reduced ID count are, equal or not.
\<close>

theorem onSequencesUpdated_only_from_name_reply:
  "notifications (fst (caseErrorReply K c)) = []
   \<and> (notifications (fst (handleData K c data)) \<noteq> [] \<longrightarrow>
        accepted (domain c) data \<and> int16BE data 17 = GetSequenceName K
        \<and> currentSequenceNameId c \<noteq> None)
   \<and> (accepted (domain c) err \<and> isErrorSentinel K err
        \<and> currentSequenceNameId c = Some i \<and> sequenceNameQueue c = []
        \<and> (\<forall>x\<in>set ins. \<not> startsDiscovery K x) \<longrightarrow>
      handleData K c err = caseErrorReply K c
      \<and> pendingSequenceIds (snd (handleData K c err)) = filter (\<lambda>x. x \<noteq> i) (pendingSequenceIds c)
      \<and> pendingSequenceNames (snd (handleData K c err)) = pendingSequenceNames c
      \<and> notifications (fst (run K c (Data err # ins))) = [])"
proof -
  have p1: "notifications (fst (caseErrorReply K c)) = []"
    by (rule notifications_caseErrorReply)
  have p2: "accepted (domain c) data \<and> int16BE data 17 = GetSequenceName K
        \<and> currentSequenceNameId c \<noteq> None"
    if n: "notifications (fst (handleData K c data)) \<noteq> []"
  proof (cases "handleData_try K c data")
    case (Inl e)
    with n show ?thesis by (simp add: handleData_def notifications_def map_filter_def)
  next
    case (Inr r)
    obtain evs c' where r: "r = (evs, c')" by (cases r)
    from n have "notifications evs \<noteq> []" by (simp add: handleData_def Inr r)
    from handleData_try_notifies [OF Inr [unfolded r] this] show ?thesis .
  qed
  have p3: "handleData K c err = caseErrorReply K c
      \<and> pendingSequenceIds (snd (handleData K c err)) = filter (\<lambda>x. x \<noteq> i) (pendingSequenceIds c)
      \<and> pendingSequenceNames (snd (handleData K c err)) = pendingSequenceNames c
      \<and> notifications (fst (run K c (Data err # ins))) = []"
    if h: "accepted (domain c) err \<and> isErrorSentinel K err
        \<and> currentSequenceNameId c = Some i \<and> sequenceNameQueue c = []
        \<and> (\<forall>x\<in>set ins. \<not> startsDiscovery K x)"
  proof -
    from h have "handleData_try K c err = Inr (caseErrorReply K c)"
      by (simp add: handleData_try_accepted isErrorSentinel_def)
    then have e: "handleData K c err = caseErrorReply K c"
      by (simp add: handleData_def)
    from h caseErrorReply_final_request [of c i K]
    have f: "currentSequenceNameId (snd (caseErrorReply K c)) = None"
      "sequenceNameQueue (snd (caseErrorReply K c)) = []"
      "pendingSequenceIds (snd (caseErrorReply K c)) = filter (\<lambda>x. x \<noteq> i) (pendingSequenceIds c)"
      "pendingSequenceNames (snd (caseErrorReply K c)) = pendingSequenceNames c"
      by simp_all
    from h have "\<forall>x\<in>set ins. \<not> startsDiscovery K x" by simp
    from run_name_idle [OF f(1,2) this]
    have "notifications (fst (run K c (Data err # ins))) = []"
      by (simp add: e split_beta notifications_caseErrorReply)
    with e f show ?thesis by simp
  qed
  from p1 p2 p3 show ?thesis by blast
qed

text \<open>
  Witness for C9: the IDs 3, 7, 2 are listed, the names of 3 and 7 arrive, and the reply
  to the request for 2 is the error sentinel. Two IDs remain and two names are recorded,
  yet neither this reply nor what follows it notifies the consumer, whereas a name reply
  in the same state does.
\<close>

theorem onSequencesUpdated_only_from_name_reply_witness:
  "snd (run sampleIds connectedClient
          [RefreshSequences, Data idsReply372, Data (nameReply ''Act 1''),
           Data (nameReply ''Act 2'')]) = lastNamePending
   \<and> accepted (domain lastNamePending) errorReply \<and> isErrorSentinel sampleIds errorReply
   \<and> currentSequenceNameId lastNamePending = Some 2 \<and> sequenceNameQueue lastNamePending = []
   \<and> \<not> startsDiscovery sampleIds Tick
   \<and> \<not> startsDiscovery sampleIds (Data (nameReply ''Act 3''))
   \<and> \<not> startsDiscovery sampleIds RefreshSequences
   \<and> \<not> startsDiscovery sampleIds (Data (statusReply 1))
   \<and> pendingSequenceIds (snd (handleData sampleIds lastNamePending errorReply)) = [3, 7]
   \<and> pendingSequenceNames (snd (handleData sampleIds lastNamePending errorReply))
       = [(3, ''Act 1''), (7, ''Act 2'')]
   \<and> notifications (fst (run sampleIds lastNamePending
         (Data errorReply
          # [Tick, Data (nameReply ''Act 3''), RefreshSequences, Data (statusReply 1), Tick]))) = []
   \<and> notifications (fst (handleData sampleIds lastNamePending (nameReply ''Act 3''))) \<noteq> []
   \<and> accepted (domain lastNamePending) (nameReply ''Act 3'')
   \<and> int16BE (nameReply ''Act 3'') 17 = GetSequenceName sampleIds
   \<and> currentSequenceNameId lastNamePending \<noteq> None"
proof -
  let ?ins = "[Tick, Data (nameReply ''Act 3''), RefreshSequences, Data (statusReply 1), Tick]"
  have r: "snd (run sampleIds connectedClient
          [RefreshSequences, Data idsReply372, Data (nameReply ''Act 1''),
           Data (nameReply ''Act 2'')]) = lastNamePending"
    by code_simp
  have h: "accepted (domain lastNamePending) errorReply \<and> isErrorSentinel sampleIds errorReply
        \<and> currentSequenceNameId lastNamePending = Some 2 \<and> sequenceNameQueue lastNamePending = []
        \<and> (\<forall>x\<in>set ?ins. \<not> startsDiscovery sampleIds x)"
    by code_simp
  have n: "notifications (fst (handleData sampleIds lastNamePending (nameReply ''Act 3''))) \<noteq> []"
    by code_simp
  have f: "filter (\<lambda>x. x \<noteq> 2) (pendingSequenceIds lastNamePending) = [3, 7]"
    "pendingSequenceNames lastNamePending = [(3, ''Act 1''), (7, ''Act 2'')]"
    by code_simp+
  note t = onSequencesUpdated_only_from_name_reply
             [where K = sampleIds and c = lastNamePending and err = errorReply and i = 2
                and ins = ?ins and data = "nameReply ''Act 3''"]
  from t h have "pendingSequenceIds (snd (handleData sampleIds lastNamePending errorReply))
        = filter (\<lambda>x. x \<noteq> 2) (pendingSequenceIds lastNamePending)"
    and "pendingSequenceNames (snd (handleData sampleIds lastNamePending errorReply))
        = pendingSequenceNames lastNamePending"
    and "notifications (fst (run sampleIds lastNamePending (Data errorReply # ?ins))) = []"
    by blast+
  moreover from t n have "accepted (domain lastNamePending) (nameReply ''Act 3'')
        \<and> int16BE (nameReply ''Act 3'') 17 = GetSequenceName sampleIds
        \<and> currentSequenceNameId lastNamePending \<noteq> None"
    by blast
  moreover from h have "\<not> startsDiscovery sampleIds Tick"
    "\<not> startsDiscovery sampleIds (Data (nameReply ''Act 3''))"
    "\<not> startsDiscovery sampleIds RefreshSequences"
    "\<not> startsDiscovery sampleIds (Data (statusReply 1))"
    by simp_all
  ultimately show ?thesis using r h n unfolding f by blast
qed

subsection \<open>C10: one frame for each call of a data handler\<close>

text \<open>
  C10. One call of a data handler decodes at most one frame, read at fixed offsets from
  the start of the buffer (the command identifier at offset 17). When the buffer starts
  with a complete frame, whatever follows it (further frames included) has no effect:
  the handler does exactly what it does on the first frame alone. A frame behind bytes
  that do not begin with the magic is ignored with the whole buffer. Nothing is kept of
  a buffer that is too short to be a frame: handling the first part of a split frame and
  then the rest is the same as handling the rest alone. A call makes at most one call of
  a consumer handler.
\<close>

theorem handleData_decodes_first_frame_only:
  "(frameComplete K data \<longrightarrow> handleData K c (data @ rest) = handleData K c data)
   \<and> (seq_frameComplete K data \<longrightarrow>
        seq_handleData K sc (data @ rest) = seq_handleData K sc data)
   \<and> (toString_ascii (junk @ data) 0 4 \<noteq> PBAU \<longrightarrow>
        handleData K c (junk @ data) = ([], c)
        \<and> seq_handleData K sc (junk @ data) = ([], sc))
   \<and> (length part < 19 \<longrightarrow> run K c [Data part, Data rest] = run K c [Data rest])
   \<and> length (filter isCallback (fst (handleData K c data))) \<le> 1
   \<and> length (filter isCallback (fst (seq_handleData K sc data))) \<le> 1"
proof -
  have "toString_ascii (junk @ data) 0 4 \<noteq> PBAU \<longrightarrow>
        handleData K c (junk @ data) = ([], c)
        \<and> seq_handleData K sc (junk @ data) = ([], sc)"
    by (simp add: handleData_def handleData_try_def seq_handleData_def seq_handleData_try_def)
  moreover have "handleData K c part = ([], c)" if "length part < 19"
    using that by (simp add: handleData_def handleData_try_def)
  then have "length part < 19 \<longrightarrow> run K c [Data part, Data rest] = run K c [Data rest]"
    by simp
  moreover have "frameComplete K data \<longrightarrow> handleData K c (data @ rest) = handleData K c data"
    by (simp add: handleData_def handleData_try_append)
  moreover have "seq_frameComplete K data \<longrightarrow>
        seq_handleData K sc (data @ rest) = seq_handleData K sc data"
    by (simp add: seq_handleData_def seq_handleData_try_append)
  ultimately show ?thesis
    using handleData_callbacks seq_handleData_callbacks by blast
qed

text \<open>
  Witness for C10: two status replies in one buffer, two time replies in one buffer, a
  status reply behind three zero bytes, and a status reply split after ten bytes.
\<close>

theorem handleData_decodes_first_frame_only_witness:
  "frameComplete sampleIds (statusReply 1)
   \<and> handleData sampleIds connectedClient (statusReply 1 @ statusReply 2)
       = ([OnTransport Play], connectedClient)
   \<and> seq_frameComplete sampleIds timeReply
   \<and> seq_handleData sampleIds sampleSequenceConnection (timeReply @ timeReply)
       = ([OnTime 1 2 3 4], sampleSequenceConnection)
   \<and> toString_ascii ([0, 0, 0] @ statusReply 1) 0 4 \<noteq> PBAU
   \<and> handleData sampleIds connectedClient ([0, 0, 0] @ statusReply 1) = ([], connectedClient)
   \<and> length (take 10 (statusReply 1)) < 19
   \<and> run sampleIds connectedClient [Data (take 10 (statusReply 1)), Data (drop 10 (statusReply 1))]
       = ([], connectedClient)"
proof -
  have h4: "toString_ascii ([0, 0, 0] @ statusReply 1) 0 4 \<noteq> PBAU" by code_simp
  from handleData_decodes_first_frame_only
         [where K = sampleIds and junk = "[0, 0, 0]" and data = "statusReply 1"
            and c = connectedClient] h4
  have j: "handleData sampleIds connectedClient ([0, 0, 0] @ statusReply 1)
           = ([], connectedClient)" by simp
  have h1: "frameComplete sampleIds (statusReply 1)" by code_simp
  have h2: "seq_frameComplete sampleIds timeReply" by code_simp
  have h3: "length (take 10 (statusReply 1)) < 19" by code_simp
  have e1: "handleData sampleIds connectedClient (statusReply 1)
            = ([OnTransport Play], connectedClient)" by code_simp
  have e2: "seq_handleData sampleIds sampleSequenceConnection timeReply
            = ([OnTime 1 2 3 4], sampleSequenceConnection)" by code_simp
  have e3: "run sampleIds connectedClient [Data (drop 10 (statusReply 1))]
            = ([], connectedClient)" by code_simp
  from handleData_decodes_first_frame_only
         [where K = sampleIds and data = "statusReply 1" and rest = "statusReply 2"
            and c = connectedClient]
       h1 e1
  have "handleData sampleIds connectedClient (statusReply 1 @ statusReply 2)
       = ([OnTransport Play], connectedClient)" by simp
  moreover from handleData_decodes_first_frame_only
         [where K = sampleIds and data = timeReply and rest = timeReply
            and sc = sampleSequenceConnection]
       h2 e2
  have "seq_handleData sampleIds sampleSequenceConnection (timeReply @ timeReply)
       = ([OnTime 1 2 3 4], sampleSequenceConnection)" by simp
  moreover from handleData_decodes_first_frame_only
         [where K = sampleIds and part = "take 10 (statusReply 1)"
            and rest = "drop 10 (statusReply 1)" and c = connectedClient]
       h3 e3
  have "run sampleIds connectedClient [Data (take 10 (statusReply 1)), Data (drop 10 (statusReply 1))]
       = ([], connectedClient)" by simp
  ultimately show ?thesis using h1 h2 h3 h4 j by blast
qed

end
